theory Spec2Isabelle
  imports Complex_Main "HOL-Library.AList"
begin

chapter \<open>Hybrid retrieval and result fusion of RAG-js\<close>

text \<open>
  A shallow embedding of the retrieval core of the repository: the TF-IDF keyword search,
  the semantic search wrapper and the reciprocal rank fusion of
  \<^verbatim>\<open>src/hybridSearchEngine.js\<close>, the source grouping of
  \<^verbatim>\<open>src/queryEngine.js\<close> and the question classifier.

  Conventions of the embedding.
  \<^item> JavaScript numbers are modelled as real numbers: the arithmetic of the scores is the
    exact one, without the rounding of IEEE doubles and without \<^verbatim>\<open>NaN\<close>.
  \<^item> A JavaScript string is the list of its UTF-16 code units, each a natural number.
  \<^item> A \<^verbatim>\<open>Map\<close> is an association list in insertion order: \<^verbatim>\<open>Map.set\<close> replaces the
    value of a key that is present where it stands and appends a new key, which is
    \<^const>\<open>AList.update\<close>; \<^verbatim>\<open>Array.from(map.values())\<close> is \<^term>\<open>map snd\<close>.
  \<^item> \<^verbatim>\<open>Array.prototype.sort\<close> is stable (ECMAScript 2019; the repository asks for
    Node.js 16 or higher), and a comparator
    \<^verbatim>\<open>(a, b) => b.s - a.s\<close> orders by decreasing \<^verbatim>\<open>s\<close>: it is \<^const>\<open>sort_key\<close> (a stable
    insertion sort) on the negated key.
  \<^item> A call that can throw returns a sum, with \<^const>\<open>Inl\<close> for the exception.
\<close>

section \<open>JavaScript values\<close>

type_synonym jsstring = "nat list"

text \<open>A string literal of the source, as code units.\<close>

definition str :: "string \<Rightarrow> jsstring" where
  "str s = map of_char s"

text \<open>
  A property of an object that the code reads without knowing its type: absent
  (\<^verbatim>\<open>undefined\<close>), a string, or any other value, of which only the truthiness matters.
\<close>

datatype jsval = Undefined | Str jsstring | Other bool

fun truthy :: "jsval \<Rightarrow> bool" where
  "truthy Undefined = False"
| "truthy (Str s) = (s \<noteq> [])"
| "truthy (Other b) = b"

text \<open>The operator \<^verbatim>\<open>a || b\<close>.\<close>

definition js_or :: "jsval \<Rightarrow> jsval \<Rightarrow> jsval" where
  "js_or a b = (if truthy a then a else b)"

text \<open>
  The decimal digits of a non-negative integer, as a template literal prints a chunk
  index (below \<open>10\<^sup>2\<^sup>1\<close>, where JavaScript switches to the exponent notation).
\<close>

fun decimal :: "nat \<Rightarrow> jsstring" where
  "decimal n = (if n < 10 then [48 + n] else decimal (n div 10) @ [48 + n mod 10])"

declare decimal.simps [simp del]

datatype js_error = TypeError | Thrown

section \<open>Documents and search results\<close>

text \<open>
  The metadata object of a chunk, as \<^verbatim>\<open>documentProcessor.js\<close> writes it; a field is
  \<^const>\<open>None\<close> when the object does not have it.
\<close>

record chunkMetadata =
  source :: "jsstring option"
  chunkIndex :: "nat option"
  fileType :: "jsstring option"
  processedAt :: "jsstring option"

datatype searchTag = Keyword | Semantic | Hybrid

text \<open>
  The objects are duck-typed: a corpus document and a search result are the same kind of
  object, read through \<^verbatim>\<open>content\<close>, \<^verbatim>\<open>pageContent\<close>, \<^verbatim>\<open>metadata\<close>, \<^verbatim>\<open>score\<close> and
  \<^verbatim>\<open>searchType\<close>. The metadata is \<^const>\<open>None\<close> when the object has none.
\<close>

record searchResult =
  content :: jsval
  pageContent :: jsval
  metadata :: "chunkMetadata option"
  score :: real
  searchType :: "searchTag option"

text \<open>What \<^verbatim>\<open>fuseResults\<close> returns: a result with its provenance.\<close>

record fusedResult = searchResult +
  keywordRank :: "nat option"
  keywordScore :: "real option"
  semanticRank :: "nat option"
  semanticScore :: "real option"

text \<open>A value of the \<^verbatim>\<open>resultMap\<close> of \<^verbatim>\<open>fuseResults\<close>.\<close>

record fusionEntry = fusedResult +
  fusedScore :: real

section \<open>Reciprocal rank fusion\<close>

text \<open>
  \<^verbatim>\<open>getDocumentId(result)\<close>: the template literal
  \<^verbatim>\<open>`${metadata.source || 'unknown'}_${metadata.chunkIndex || 0}`\<close> over
  \<^verbatim>\<open>result.metadata || {}\<close>.
\<close>

definition getDocumentId :: "'a searchResult_scheme \<Rightarrow> jsstring" where
  "getDocumentId result =
     (let src = (case metadata result of None \<Rightarrow> None | Some m \<Rightarrow> source m);
          idx = (case metadata result of None \<Rightarrow> None | Some m \<Rightarrow> chunkIndex m)
      in (case src of None \<Rightarrow> str ''unknown'' | Some s \<Rightarrow> if s = [] then str ''unknown'' else s)
         @ str ''_''
         @ decimal (case idx of None \<Rightarrow> 0 | Some n \<Rightarrow> n))"

text \<open>The object that \<^verbatim>\<open>resultMap.set\<close> stores for a chunk first met in the keyword list.\<close>

definition keywordEntry :: "real \<Rightarrow> nat \<Rightarrow> searchResult \<Rightarrow> fusionEntry" where
  "keywordEntry rrfScore index result =
     \<lparr>content = content result, pageContent = pageContent result,
      metadata = metadata result, score = score result,
      searchType = searchType result,
      keywordRank = Some (index + 1), keywordScore = Some (score result),
      semanticRank = None, semanticScore = None,
      fusedScore = rrfScore\<rparr>"

text \<open>The same for a chunk first met in the semantic list.\<close>

definition semanticEntry :: "real \<Rightarrow> nat \<Rightarrow> searchResult \<Rightarrow> fusionEntry" where
  "semanticEntry rrfScore index result =
     \<lparr>content = content result, pageContent = pageContent result,
      metadata = metadata result, score = score result,
      searchType = searchType result,
      keywordRank = None, keywordScore = None,
      semanticRank = Some (index + 1), semanticScore = Some (score result),
      fusedScore = rrfScore\<rparr>"

text \<open>
  The body of \<^verbatim>\<open>keywordResults.forEach((result, index) => ...)\<close>, with \<^verbatim>\<open>k = 60\<close>:
  an entry that is present is updated in place, a new one is appended.
\<close>

definition keywordStep ::
  "real \<Rightarrow> nat \<times> searchResult \<Rightarrow> (jsstring \<times> fusionEntry) list \<Rightarrow> (jsstring \<times> fusionEntry) list" where
  "keywordStep keywordWeight p resultMap =
     (let index = fst p; result = snd p;
          docId = getDocumentId result;
          rrfScore = keywordWeight / (60 + real index + 1)
      in case map_of resultMap docId of
           Some existing \<Rightarrow>
             AList.update docId
               (existing\<lparr>keywordRank := Some (index + 1),
                         keywordScore := Some (score result),
                         fusedScore := fusedScore existing + rrfScore\<rparr>) resultMap
         | None \<Rightarrow> AList.update docId (keywordEntry rrfScore index result) resultMap)"

text \<open>The body of \<^verbatim>\<open>semanticResults.forEach((result, index) => ...)\<close>.\<close>

definition semanticStep ::
  "real \<Rightarrow> nat \<times> searchResult \<Rightarrow> (jsstring \<times> fusionEntry) list \<Rightarrow> (jsstring \<times> fusionEntry) list" where
  "semanticStep semanticWeight p resultMap =
     (let index = fst p; result = snd p;
          docId = getDocumentId result;
          rrfScore = semanticWeight / (60 + real index + 1)
      in case map_of resultMap docId of
           Some existing \<Rightarrow>
             AList.update docId
               (existing\<lparr>semanticRank := Some (index + 1),
                         semanticScore := Some (score result),
                         fusedScore := fusedScore existing + rrfScore\<rparr>) resultMap
         | None \<Rightarrow> AList.update docId (semanticEntry rrfScore index result) resultMap)"

text \<open>The final \<^verbatim>\<open>.map(result => ({...}))\<close> of \<^verbatim>\<open>fuseResults\<close>.\<close>

definition fusedOutput :: "fusionEntry \<Rightarrow> fusedResult" where
  "fusedOutput result =
     \<lparr>content = content result, pageContent = Undefined,
      metadata = metadata result, score = fusedScore result,
      searchType = Some Hybrid,
      keywordRank = keywordRank result, keywordScore = keywordScore result,
      semanticRank = semanticRank result, semanticScore = semanticScore result\<rparr>"

text \<open>The map after both loops.\<close>

definition fusedMap ::
  "searchResult list \<Rightarrow> searchResult list \<Rightarrow> real \<Rightarrow> real \<Rightarrow> (jsstring \<times> fusionEntry) list" where
  "fusedMap keywordResults semanticResults keywordWeight semanticWeight =
     fold (semanticStep semanticWeight) (enumerate 0 semanticResults)
       (fold (keywordStep keywordWeight) (enumerate 0 keywordResults) [])"

text \<open>
  \<^verbatim>\<open>fuseResults(keywordResults, semanticResults, keywordWeight, semanticWeight)\<close>: the
  values of the map, sorted by decreasing fused score.
\<close>

definition fuseResults ::
  "searchResult list \<Rightarrow> searchResult list \<Rightarrow> real \<Rightarrow> real \<Rightarrow> fusedResult list" where
  "fuseResults keywordResults semanticResults keywordWeight semanticWeight =
     map fusedOutput
       (sort_key (\<lambda>e. - fusedScore e)
          (map snd (fusedMap keywordResults semanticResults keywordWeight semanticWeight)))"

text \<open>A search result of the chunk \<open>(sourceId, chunkIndex)\<close>, for the scenarios.\<close>

definition resultOf :: "string \<Rightarrow> nat \<Rightarrow> searchResult" where
  "resultOf s i =
     \<lparr>content = Undefined, pageContent = Undefined,
      metadata = Some \<lparr>source = Some (str s), chunkIndex = Some i,
                       fileType = None, processedAt = None\<rparr>,
      score = 0, searchType = None\<rparr>"

text \<open>The two lists of the fusion scenario of the specification.\<close>

definition scenarioKeyword :: "searchResult list" where
  "scenarioKeyword = [resultOf ''docA'' 0, resultOf ''docB'' 0]"

definition scenarioSemantic :: "searchResult list" where
  "scenarioSemantic = [resultOf ''docB'' 0, resultOf ''docA'' 0]"

text \<open>A result with no metadata object, or with one that has neither field of the identity.\<close>

definition lacksIdentity :: "'a searchResult_scheme \<Rightarrow> bool" where
  "lacksIdentity result =
     (case metadata result of None \<Rightarrow> True
      | Some m \<Rightarrow> source m = None \<and> chunkIndex m = None)"

text \<open>Proof vocabulary: the fused score a map holds for an identity, and what one list position adds to it.\<close>

definition scoreOf :: "(jsstring \<times> fusionEntry) list \<Rightarrow> jsstring \<Rightarrow> real" where
  "scoreOf m d = (case map_of m d of None \<Rightarrow> 0 | Some e \<Rightarrow> fusedScore e)"

definition contribution :: "real \<Rightarrow> jsstring \<Rightarrow> nat \<times> searchResult \<Rightarrow> real" where
  "contribution w d p = (if getDocumentId (snd p) = d then w / (60 + real (fst p) + 1) else 0)"

text \<open>The invariant of the map: distinct keys, each the identity of its entry.\<close>

definition keyed :: "(jsstring \<times> fusionEntry) list \<Rightarrow> bool" where
  "keyed m = (distinct (map fst m) \<and> (\<forall>(k, e) \<in> set m. getDocumentId e = k))"

section \<open>Grouping the results by source\<close>

text \<open>
  An element of \<^verbatim>\<open>chunks\<close> and a value of the \<^verbatim>\<open>sourceMap\<close> of \<^verbatim>\<open>extractSources\<close> in
  \<^verbatim>\<open>queryEngine.js\<close>. The fields \<^verbatim>\<open>chunkIndex\<close>, \<^verbatim>\<open>score\<close>, \<^verbatim>\<open>content\<close>, \<^verbatim>\<open>fileType\<close> and
  \<^verbatim>\<open>processedAt\<close> carry a prefix here, their names being those of the fields above.
\<close>

record sourceChunk =
  chunk_chunkIndex :: nat
  chunk_score :: real
  chunk_content :: jsval

record sourceGroup =
  filename :: jsstring
  chunks :: "sourceChunk list"
  group_fileType :: jsstring
  group_processedAt :: "jsstring option"

text \<open>\<^verbatim>\<open>result.metadata.source || 'Unknown'\<close> and \<^verbatim>\<open>result.metadata.chunkIndex || 0\<close>.\<close>

definition sourceName :: "chunkMetadata \<Rightarrow> jsstring" where
  "sourceName md = (case source md of None \<Rightarrow> str ''Unknown''
                    | Some s \<Rightarrow> if s = [] then str ''Unknown'' else s)"

definition chunkIndexOr0 :: "chunkMetadata \<Rightarrow> nat" where
  "chunkIndexOr0 md = (case chunkIndex md of None \<Rightarrow> 0 | Some n \<Rightarrow> n)"

text \<open>\<^verbatim>\<open>result.content || result.pageContent || ''\<close>.\<close>

definition displayContent :: "searchResult \<Rightarrow> jsval" where
  "displayContent result = js_or (js_or (content result) (pageContent result)) (Str [])"

text \<open>The group that \<^verbatim>\<open>sourceMap.set\<close> stores for a source met for the first time.\<close>

definition newGroup :: "jsstring \<Rightarrow> chunkMetadata \<Rightarrow> sourceGroup" where
  "newGroup src md =
     \<lparr>filename = src, chunks = [],
      group_fileType = (case fileType md of None \<Rightarrow> str ''unknown''
                        | Some t \<Rightarrow> if t = [] then str ''unknown'' else t),
      group_processedAt = processedAt md\<rparr>"

text \<open>
  The body of \<^verbatim>\<open>searchResults.forEach(result => ...)\<close>. Reading
  \<^verbatim>\<open>result.metadata.source\<close> throws when the result has no metadata, and the logging call
  evaluates \<^verbatim>\<open>content.substring(0, 100)\<close>, which throws when the content is a truthy value
  that is not a string.
\<close>

definition extractStep ::
  "searchResult \<Rightarrow> (jsstring \<times> sourceGroup) list \<Rightarrow> js_error + (jsstring \<times> sourceGroup) list" where
  "extractStep result sourceMap =
     (case metadata result of
        None \<Rightarrow> Inl TypeError
      | Some md \<Rightarrow>
          (let src = sourceName md;
               chunkIdx = chunkIndexOr0 md;
               sc = score result;
               cont = displayContent result
           in case cont of
                Other b \<Rightarrow> Inl TypeError
              | _ \<Rightarrow>
                  (let sourceMap' =
                         (if map_of sourceMap src = None
                          then AList.update src (newGroup src md) sourceMap
                          else sourceMap)
                   in Inr (AList.map_entry src
                            (\<lambda>g. g\<lparr>chunks := chunks g @
                                  [\<lparr>chunk_chunkIndex = chunkIdx + 1, chunk_score = sc,
                                    chunk_content = cont\<rparr>]\<rparr>)
                            sourceMap'))))"

text \<open>The loop: the first exception ends it.\<close>

fun extractLoop ::
  "searchResult list \<Rightarrow> (jsstring \<times> sourceGroup) list \<Rightarrow> js_error + (jsstring \<times> sourceGroup) list" where
  "extractLoop [] sourceMap = Inr sourceMap"
| "extractLoop (result # results) sourceMap =
     (case extractStep result sourceMap of
        Inl e \<Rightarrow> Inl e
      | Inr sourceMap' \<Rightarrow> extractLoop results sourceMap')"

text \<open>
  \<^verbatim>\<open>extractSources(searchResults)\<close>: the groups in the order of the map, the chunks of each
  sorted by \<^verbatim>\<open>(a, b) => a.chunkIndex - b.chunkIndex\<close>.
\<close>

definition extractSources :: "searchResult list \<Rightarrow> js_error + sourceGroup list" where
  "extractSources searchResults =
     (case extractLoop searchResults [] of
        Inl e \<Rightarrow> Inl e
      | Inr sourceMap \<Rightarrow>
          Inr (map (\<lambda>src. src\<lparr>chunks := sort_key chunk_chunkIndex (chunks src)\<rparr>)
                 (map snd sourceMap)))"

text \<open>
  The vocabulary of the grouping claim, written out on the fields of a result and not
  through the functions of the code above: the elements of a list in the order of their
  first occurrence; the source of a result (of a result with metadata: the value for
  \<^const>\<open>None\<close> is never used); the first truthy one of its \<^verbatim>\<open>content\<close> and
  \<^verbatim>\<open>pageContent\<close>, or the empty string; its chunk; the results that
  \<^verbatim>\<open>extractSources\<close> accepts.
\<close>

definition firstSeen :: "'a list \<Rightarrow> 'a list" where
  "firstSeen xs = fold (\<lambda>x seen. if x \<in> set seen then seen else seen @ [x]) xs []"

definition resultSource :: "searchResult \<Rightarrow> jsstring" where
  "resultSource r =
     (case metadata r of
        None \<Rightarrow> []
      | Some md \<Rightarrow> (case source md of
                     None \<Rightarrow> str ''Unknown''
                   | Some s \<Rightarrow> if s = [] then str ''Unknown'' else s))"

definition shownContent :: "searchResult \<Rightarrow> jsval" where
  "shownContent r =
     (if truthy (content r) then content r
      else if truthy (pageContent r) then pageContent r
      else Str [])"

definition resultChunk :: "searchResult \<Rightarrow> sourceChunk" where
  "resultChunk r =
     \<lparr>chunk_chunkIndex =
        (case metadata r of
           None \<Rightarrow> 0
         | Some md \<Rightarrow> (case chunkIndex md of None \<Rightarrow> 0 | Some n \<Rightarrow> n)) + 1,
      chunk_score = score r, chunk_content = shownContent r\<rparr>"

definition groupable :: "searchResult \<Rightarrow> bool" where
  "groupable r = (metadata r \<noteq> None \<and> (case shownContent r of Other b \<Rightarrow> False | _ \<Rightarrow> True))"

text \<open>
  A result with a source, a chunk index, a file type, a processing timestamp, a content
  and a score, for the scenarios.
\<close>

definition sourcedResult ::
  "string \<Rightarrow> nat \<Rightarrow> string \<Rightarrow> string \<Rightarrow> string \<Rightarrow> real \<Rightarrow> searchResult" where
  "sourcedResult s i ft stamp c sc =
     \<lparr>content = Str (str c), pageContent = Undefined,
      metadata = Some \<lparr>source = Some (str s), chunkIndex = Some i,
                       fileType = Some (str ft), processedAt = Some (str stamp)\<rparr>,
      score = sc, searchType = Some Hybrid\<rparr>"

text \<open>
  Proof vocabulary: the fresh group of a result, one accepted result added to the map, and
  the group of a source.
\<close>

definition resultGroup :: "searchResult \<Rightarrow> sourceGroup" where
  "resultGroup r =
     (case metadata r of
        None \<Rightarrow> \<lparr>filename = [], chunks = [], group_fileType = [], group_processedAt = None\<rparr>
      | Some md \<Rightarrow> newGroup (sourceName md) md)"

definition addResult :: "searchResult \<Rightarrow> (jsstring \<times> sourceGroup) list \<Rightarrow> (jsstring \<times> sourceGroup) list" where
  "addResult r m =
     AList.map_entry (resultSource r) (\<lambda>g. g\<lparr>chunks := chunks g @ [resultChunk r]\<rparr>)
       (if map_of m (resultSource r) = None then AList.update (resultSource r) (resultGroup r) m else m)"

definition groupFor :: "searchResult list \<Rightarrow> jsstring \<Rightarrow> sourceGroup" where
  "groupFor rs s =
     (case find (\<lambda>r. resultSource r = s) rs of
        None \<Rightarrow> \<lparr>filename = s, chunks = [], group_fileType = [], group_processedAt = None\<rparr>
      | Some r \<Rightarrow> (resultGroup r)\<lparr>chunks := map resultChunk (filter (\<lambda>r. resultSource r = s) rs)\<rparr>)"

section \<open>Text preprocessing\<close>

text \<open>
  The character classes of the regular expressions, on code units: \<^verbatim>\<open>\w\<close>, \<^verbatim>\<open>\s\<close>
  (the white space and the line terminators of ECMAScript, which \<^verbatim>\<open>trim\<close> strips too),
  and the range from U+4E00 to U+9FFF.
\<close>

definition isWordChar :: "nat \<Rightarrow> bool" where
  "isWordChar c = ((48 \<le> c \<and> c \<le> 57) \<or> (65 \<le> c \<and> c \<le> 90) \<or> c = 95 \<or> (97 \<le> c \<and> c \<le> 122))"

definition isSpace :: "nat \<Rightarrow> bool" where
  "isSpace c = (c \<in> {9, 10, 11, 12, 13, 32, 160, 5760} \<or> (8192 \<le> c \<and> c \<le> 8202)
                \<or> c \<in> {8232, 8233, 8239, 8287, 12288, 65279})"

definition isCJK :: "nat \<Rightarrow> bool" where
  "isCJK c = (19968 \<le> c \<and> c \<le> 40959)"

text \<open>The first \<^verbatim>\<open>replace\<close>: a code unit outside the three classes becomes a space.\<close>

definition blankPunctuation :: "jsstring \<Rightarrow> jsstring" where
  "blankPunctuation s = map (\<lambda>c. if isWordChar c \<or> isSpace c \<or> isCJK c then c else 32) s"

text \<open>\<^verbatim>\<open>.replace(/\s+/g, ' ')\<close>: every maximal run of white space becomes one space.\<close>

function collapseSpaces :: "jsstring \<Rightarrow> jsstring" where
  "collapseSpaces [] = []"
| "collapseSpaces (c # cs) =
     (if isSpace c then 32 # collapseSpaces (dropWhile isSpace cs) else c # collapseSpaces cs)"
  by pat_completeness auto
termination
  by (relation "measure length") (auto simp: length_dropWhile_le less_Suc_eq_le)

text \<open>\<^verbatim>\<open>.trim()\<close>.\<close>

definition trim :: "jsstring \<Rightarrow> jsstring" where
  "trim s = rev (dropWhile isSpace (rev (dropWhile isSpace s)))"

text \<open>\<^verbatim>\<open>.split(' ')\<close>: the pieces between the spaces; the empty string has one empty piece.\<close>

fun splitSpace :: "jsstring \<Rightarrow> jsstring list" where
  "splitSpace [] = [[]]"
| "splitSpace (c # cs) =
     (if c = 32 then [] # splitSpace cs
      else (case splitSpace cs of [] \<Rightarrow> [[c]] | t # ts \<Rightarrow> (c # t) # ts))"

text \<open>\<^verbatim>\<open>typeof text === 'string'\<close>.\<close>

fun isString :: "jsval \<Rightarrow> bool" where
  "isString (Str s) = True"
| "isString v = False"

text \<open>
  The library functions that the code calls and the repository does not hold:
  \<^verbatim>\<open>String.prototype.toLowerCase\<close> and \<^verbatim>\<open>toUpperCase\<close>, which need the case tables of
  Unicode, and \<^verbatim>\<open>TfIdf.tfidf(term, i)\<close> of the package \<^verbatim>\<open>natural\<close>, here a function of the
  documents added to the index, the term and the number of the document.
\<close>

record jsLibrary =
  toLowerCase :: "jsstring \<Rightarrow> jsstring"
  toUpperCase :: "jsstring \<Rightarrow> jsstring"
  tfidf :: "jsstring list \<Rightarrow> jsstring \<Rightarrow> nat \<Rightarrow> real"

text \<open>A method call \<^verbatim>\<open>text.toLowerCase()\<close>: a \<^verbatim>\<open>TypeError\<close> on a value that is not a string.\<close>

definition callToLowerCase :: "jsLibrary \<Rightarrow> jsval \<Rightarrow> js_error + jsstring" where
  "callToLowerCase lib text = (case text of Str s \<Rightarrow> Inr (toLowerCase lib s) | _ \<Rightarrow> Inl TypeError)"

text \<open>\<^verbatim>\<open>preprocessText(text)\<close>, with its guard \<^verbatim>\<open>!text || typeof text !== 'string'\<close>.\<close>

definition preprocessText :: "jsLibrary \<Rightarrow> jsval \<Rightarrow> js_error + jsstring" where
  "preprocessText lib text =
     (if \<not> truthy text \<or> \<not> isString text then Inr []
      else (case callToLowerCase lib text of
              Inl e \<Rightarrow> Inl e
            | Inr s \<Rightarrow> Inr (trim (collapseSpaces (blankPunctuation s)))))"

section \<open>The keyword index and the keyword search\<close>

text \<open>
  The state of a \<^verbatim>\<open>HybridSearchEngine\<close> (the class built on \<^verbatim>\<open>TfIdf\<close>): the
  \<^verbatim>\<open>similaritySearch\<close> of the vector store it was given, the texts added to \<^verbatim>\<open>this.tfidf\<close>,
  the documents, their metadata, and the flag.
\<close>

record engine =
  vectorStore :: "jsval \<Rightarrow> int \<Rightarrow> js_error + searchResult list"
  tfidfDocuments :: "jsstring list"
  documents :: "searchResult list"
  documentMetadata :: "chunkMetadata option list"
  isIndexed :: bool

text \<open>The constructor.\<close>

definition newEngine :: "(jsval \<Rightarrow> int \<Rightarrow> js_error + searchResult list) \<Rightarrow> engine" where
  "newEngine store =
     \<lparr>vectorStore = store, tfidfDocuments = [], documents = [], documentMetadata = [],
      isIndexed = False\<rparr>"

text \<open>\<^verbatim>\<open>doc.pageContent || doc.content || ''\<close>.\<close>

definition docContent :: "searchResult \<Rightarrow> jsval" where
  "docContent doc = js_or (js_or (pageContent doc) (content doc)) (Str [])"

text \<open>A loop whose body can throw: the first exception ends it.\<close>

fun forEachE :: "('a \<Rightarrow> js_error + 'b) \<Rightarrow> 'a list \<Rightarrow> js_error + 'b list" where
  "forEachE f [] = Inr []"
| "forEachE f (x # xs) =
     (case f x of
        Inl e \<Rightarrow> Inl e
      | Inr y \<Rightarrow> (case forEachE f xs of Inl e \<Rightarrow> Inl e | Inr ys \<Rightarrow> Inr (y # ys)))"

text \<open>
  \<^verbatim>\<open>buildIndex(documents)\<close>: a fresh \<^verbatim>\<open>TfIdf\<close>, to which the preprocessed content of every
  document is added. (An exception would reject the call; the state it would leave behind
  is not modelled.)
\<close>

definition buildIndex :: "jsLibrary \<Rightarrow> engine \<Rightarrow> searchResult list \<Rightarrow> js_error + engine" where
  "buildIndex lib this docs =
     (case forEachE (\<lambda>doc. preprocessText lib (docContent doc)) docs of
        Inl e \<Rightarrow> Inl e
      | Inr texts \<Rightarrow>
          Inr (this\<lparr>documents := docs, documentMetadata := map metadata docs,
                    tfidfDocuments := texts, isIndexed := True\<rparr>))"

text \<open>\<^verbatim>\<open>array.slice(0, k)\<close> for an integer \<^verbatim>\<open>k\<close>: a negative \<^verbatim>\<open>k\<close> counts from the end.\<close>

definition slice0 :: "int \<Rightarrow> 'a list \<Rightarrow> 'a list" where
  "slice0 k xs = (if k < 0 then take (nat (int (length xs) + k)) xs else take (nat k) xs)"

text \<open>The score of document \<open>i\<close>: the loop \<^verbatim>\<open>queryTerms.forEach(term => score += ...)\<close> from 0.\<close>

definition documentScore :: "jsLibrary \<Rightarrow> engine \<Rightarrow> jsstring list \<Rightarrow> nat \<Rightarrow> real" where
  "documentScore lib this queryTerms i =
     fold (\<lambda>term sc. sc + tfidf lib (tfidfDocuments this) term i) queryTerms 0"

text \<open>The object pushed for document \<open>i\<close> with its score.\<close>

definition keywordHit :: "engine \<Rightarrow> nat \<Rightarrow> real \<Rightarrow> searchResult" where
  "keywordHit this i sc =
     \<lparr>content = docContent (documents this ! i), pageContent = Undefined,
      metadata = metadata (documents this ! i), score = sc, searchType = Some Keyword\<rparr>"

text \<open>\<^verbatim>\<open>processedQuery.split(' ').filter(term => term.length > 0)\<close>.\<close>

definition queryTermsOf :: "jsstring \<Rightarrow> jsstring list" where
  "queryTermsOf processedQuery = filter (\<lambda>term. length term > 0) (splitSpace processedQuery)"

text \<open>\<^verbatim>\<open>keywordSearch(query, k)\<close>.\<close>

definition keywordSearch :: "jsLibrary \<Rightarrow> engine \<Rightarrow> jsval \<Rightarrow> int \<Rightarrow> js_error + searchResult list" where
  "keywordSearch lib this query k =
     (if \<not> isIndexed this then Inr []
      else (case preprocessText lib query of
              Inl e \<Rightarrow> Inl e
            | Inr processedQuery \<Rightarrow>
                (let queryTerms = queryTermsOf processedQuery
                 in if length queryTerms = 0 then Inr []
                    else (let scores =
                                List.map_filter
                                  (\<lambda>i. let sc = documentScore lib this queryTerms i
                                       in if sc > 0 then Some (keywordHit this i sc) else None)
                                  [0..<length (documents this)]
                          in Inr (slice0 k (sort_key (\<lambda>r. - score r) scores))))))"

text \<open>
  The vocabulary of the keyword claims: the text of a document, the first truthy one of
  its \<^verbatim>\<open>pageContent\<close> and \<^verbatim>\<open>content\<close> or the empty string, written out on the fields; the
  terms of a query; the sum of the TF-IDF
  statistic of a document over them; the order of the ranking, by
  decreasing score and then by position in the corpus; a document whose content, read as
  \<^verbatim>\<open>doc.pageContent || doc.content || ''\<close>, is empty or not a string; and the property of
  the library that a document added as the empty text has no term.
\<close>

definition documentText :: "searchResult \<Rightarrow> jsval" where
  "documentText doc =
     (if truthy (pageContent doc) then pageContent doc
      else if truthy (content doc) then content doc
      else Str [])"

definition termsOfQuery :: "jsLibrary \<Rightarrow> jsval \<Rightarrow> jsstring list" where
  "termsOfQuery lib query =
     (case preprocessText lib query of Inl e \<Rightarrow> [] | Inr p \<Rightarrow> queryTermsOf p)"

definition summedScore :: "jsLibrary \<Rightarrow> engine \<Rightarrow> jsval \<Rightarrow> nat \<Rightarrow> real" where
  "summedScore lib this query i =
     (\<Sum>term\<leftarrow>termsOfQuery lib query. tfidf lib (tfidfDocuments this) term i)"

definition rankedBefore :: "(nat \<Rightarrow> real) \<Rightarrow> nat \<Rightarrow> nat \<Rightarrow> bool" where
  "rankedBefore sc i j = (sc i > sc j \<or> (sc i = sc j \<and> i < j))"

definition noText :: "searchResult \<Rightarrow> bool" where
  "noText doc = (case docContent doc of Str s \<Rightarrow> s = [] | _ \<Rightarrow> True)"

definition emptyTextScoresZero :: "jsLibrary \<Rightarrow> bool" where
  "emptyTextScoresZero lib =
     (\<forall>texts term i. i < length texts \<and> texts ! i = [] \<longrightarrow> tfidf lib texts term i = 0)"

text \<open>Proof vocabulary: the documents of positive score, by decreasing score.\<close>

definition rankedDocuments :: "jsLibrary \<Rightarrow> engine \<Rightarrow> jsval \<Rightarrow> nat list" where
  "rankedDocuments lib this query =
     sort_key (\<lambda>i. - summedScore lib this query i)
       (filter (\<lambda>i. 0 < summedScore lib this query i) [0..<length (documents this)])"

text \<open>
  Stand-ins for the library, to run the model: the case mappings on the letters of ASCII,
  and the term frequency (the number of occurrences of the term among the words of the
  text) for \<^verbatim>\<open>tfidf\<close>.
\<close>

definition asciiLower :: "jsstring \<Rightarrow> jsstring" where
  "asciiLower s = map (\<lambda>c. if 65 \<le> c \<and> c \<le> 90 then c + 32 else c) s"

definition asciiUpper :: "jsstring \<Rightarrow> jsstring" where
  "asciiUpper s = map (\<lambda>c. if 97 \<le> c \<and> c \<le> 122 then c - 32 else c) s"

definition termFrequency :: "jsstring list \<Rightarrow> jsstring \<Rightarrow> nat \<Rightarrow> real" where
  "termFrequency texts term i =
     (if i < length texts then real (length (filter (\<lambda>w. w = term) (queryTermsOf (texts ! i))))
      else 0)"

definition asciiLibrary :: jsLibrary where
  "asciiLibrary = \<lparr>toLowerCase = asciiLower, toUpperCase = asciiUpper, tfidf = termFrequency\<rparr>"

text \<open>A corpus document with a text as its \<^verbatim>\<open>pageContent\<close>, and one with no content at all.\<close>

definition docOf :: "string \<Rightarrow> nat \<Rightarrow> string \<Rightarrow> searchResult" where
  "docOf s i text = (resultOf s i)\<lparr>pageContent := Str (str text)\<rparr>"

text \<open>
  A corpus for the scenarios: the two chunks of the first scenario of the specification, a
  third that ties with the first on the query \<^verbatim>\<open>apples\<close>, and a chunk with no content;
  a vector store that always throws; and the engine that \<^verbatim>\<open>buildIndex\<close> makes of them.
\<close>

definition scenarioCorpus :: "searchResult list" where
  "scenarioCorpus =
     [docOf ''docA'' 0 ''apples are red'', docOf ''docA'' 1 ''bananas are yellow'',
      docOf ''docA'' 2 ''Green Apples!'', resultOf ''docA'' 3]"

definition failingStore :: "jsval \<Rightarrow> int \<Rightarrow> js_error + searchResult list" where
  "failingStore query k = Inl Thrown"

definition scenarioEngine :: engine where
  "scenarioEngine =
     \<lparr>vectorStore = failingStore,
      tfidfDocuments = [str ''apples are red'', str ''bananas are yellow'', str ''green apples'', []],
      documents = scenarioCorpus,
      documentMetadata = map metadata scenarioCorpus,
      isIndexed = True\<rparr>"

section \<open>The semantic search and the hybrid search\<close>

text \<open>
  \<^verbatim>\<open>semanticSearch(query, k)\<close>: the call of the vector store is inside \<^verbatim>\<open>try\<close>, and the
  \<^verbatim>\<open>catch\<close> returns the empty list.
\<close>

definition semanticSearch :: "engine \<Rightarrow> jsval \<Rightarrow> int \<Rightarrow> searchResult list" where
  "semanticSearch this query k =
     (case vectorStore this query k of
        Inl e \<Rightarrow> []
      | Inr results \<Rightarrow> map (\<lambda>result. result\<lparr>searchType := Some Semantic\<rparr>) results)"

text \<open>The options of \<^verbatim>\<open>hybridSearch\<close>, and their defaults.\<close>

record hybridOptions =
  maxResults :: int
  keywordWeight :: real
  semanticWeight :: real
  keywordResults :: int
  semanticResults :: int

definition defaultOptions :: hybridOptions where
  "defaultOptions =
     \<lparr>maxResults = 4, keywordWeight = 3/10, semanticWeight = 7/10,
      keywordResults = 10, semanticResults = 10\<rparr>"

text \<open>
  \<^verbatim>\<open>hybridSearch(query, options)\<close>: both searches under \<^verbatim>\<open>Promise.all\<close>, which rejects when
  one of them does; the fusion; the first \<^verbatim>\<open>maxResults\<close> of it.
\<close>

definition hybridSearch ::
  "jsLibrary \<Rightarrow> engine \<Rightarrow> jsval \<Rightarrow> hybridOptions \<Rightarrow> js_error + fusedResult list" where
  "hybridSearch lib this query options =
     (case keywordSearch lib this query (keywordResults options) of
        Inl e \<Rightarrow> Inl e
      | Inr keywordSearchResults \<Rightarrow>
          (let semanticSearchResults = semanticSearch this query (semanticResults options);
               fusedResults = fuseResults keywordSearchResults semanticSearchResults
                                (keywordWeight options) (semanticWeight options)
           in Inr (slice0 (maxResults options) fusedResults)))"

section \<open>The engine built on retrievers\<close>

text \<open>
  The other \<^verbatim>\<open>HybridSearchEngine\<close> of the repository keeps a \<^verbatim>\<open>BM25Retriever\<close> and an
  \<^verbatim>\<open>EnsembleRetriever\<close>. The state of a \<^verbatim>\<open>BM25Retriever\<close>: its documents, its \<^verbatim>\<open>k\<close> and the
  texts added to its \<^verbatim>\<open>TfIdf\<close>.
\<close>

record bm25 =
  bm25Documents :: "searchResult list"
  bm25K :: int
  bm25Texts :: "jsstring list"

text \<open>\<^verbatim>\<open>BM25Retriever._getRelevantDocuments(query)\<close>.\<close>

definition bm25GetRelevantDocuments :: "jsLibrary \<Rightarrow> bm25 \<Rightarrow> jsval \<Rightarrow> js_error + searchResult list" where
  "bm25GetRelevantDocuments lib this query =
     (case preprocessText lib query of
        Inl e \<Rightarrow> Inl e
      | Inr processedQuery \<Rightarrow>
          (let queryTerms = queryTermsOf processedQuery
           in if length queryTerms = 0 then Inr []
              else (let scores =
                          List.map_filter
                            (\<lambda>i. let sc = fold (\<lambda>term sc. sc + tfidf lib (bm25Texts this) term i)
                                             queryTerms 0
                                 in if sc > 0 then Some (i, sc) else None)
                            [0..<length (bm25Documents this)]
                    in Inr (map (\<lambda>item. bm25Documents this ! fst item)
                              (slice0 (bm25K this) (sort_key (\<lambda>item. - snd item) scores))))))"

text \<open>
  \<^verbatim>\<open>EnsembleRetriever._getRelevantDocuments\<close> after the retrievers have answered: the
  reciprocal rank fusion of their lists, each with its weight, the map holding the first
  document of an identity and its score.
\<close>

definition ensembleStep ::
  "real \<Rightarrow> nat \<times> searchResult \<Rightarrow> (jsstring \<times> searchResult \<times> real) list
     \<Rightarrow> (jsstring \<times> searchResult \<times> real) list" where
  "ensembleStep weight p resultMap =
     (let rank = fst p; doc = snd p;
          docId = getDocumentId doc;
          rrfScore = weight / (60 + real rank + 1)
      in case map_of resultMap docId of
           Some existing \<Rightarrow> AList.update docId (fst existing, snd existing + rrfScore) resultMap
         | None \<Rightarrow> AList.update docId (doc, rrfScore) resultMap)"

definition ensembleFuse :: "(real \<times> searchResult list) list \<Rightarrow> searchResult list" where
  "ensembleFuse weighted =
     (let resultMap =
            fold (\<lambda>wr m. fold (ensembleStep (fst wr)) (enumerate 0 (snd wr)) m) weighted []
      in map fst (sort_key (\<lambda>item. - snd item) (map snd resultMap)))"

text \<open>
  The state of the engine: the \<^verbatim>\<open>similaritySearch\<close> of the vector store and the retriever
  that \<^verbatim>\<open>vectorStore.asRetriever()\<close> gives (a call taken to return), both of which can
  throw when they are asked; the BM25 retriever
  and the weights of the ensemble retriever, \<^const>\<open>None\<close> until \<^verbatim>\<open>buildIndex\<close>; the
  documents and the flag.
\<close>

record retrieverEngine =
  similaritySearch :: "jsval \<Rightarrow> int \<Rightarrow> js_error + searchResult list"
  vectorRetriever :: "jsval \<Rightarrow> js_error + searchResult list"
  bm25Retriever :: "bm25 option"
  ensembleRetriever :: "(real \<times> real) option"
  retrieverDocuments :: "searchResult list"
  retrieverIsIndexed :: bool

definition newRetrieverEngine ::
  "(jsval \<Rightarrow> int \<Rightarrow> js_error + searchResult list) \<Rightarrow> (jsval \<Rightarrow> js_error + searchResult list)
     \<Rightarrow> retrieverEngine" where
  "newRetrieverEngine store retriever =
     \<lparr>similaritySearch = store, vectorRetriever = retriever, bm25Retriever = None,
      ensembleRetriever = None, retrieverDocuments = [], retrieverIsIndexed = False\<rparr>"

text \<open>The result that the engine makes of the document at position \<open>index\<close> of a ranking.\<close>

definition rankedResult :: "searchTag \<Rightarrow> nat \<times> searchResult \<Rightarrow> searchResult" where
  "rankedResult tag p =
     \<lparr>content = pageContent (snd p), pageContent = Undefined, metadata = metadata (snd p),
      score = 1 / (real (fst p) + 1), searchType = Some tag\<rparr>"

text \<open>
  \<^verbatim>\<open>keywordSearch(query, k)\<close> of this engine; it sets the \<^verbatim>\<open>k\<close> of the BM25 retriever, so
  the engine is returned too.
\<close>

definition retrieverKeywordSearch ::
  "jsLibrary \<Rightarrow> retrieverEngine \<Rightarrow> jsval \<Rightarrow> int \<Rightarrow> searchResult list \<times> retrieverEngine" where
  "retrieverKeywordSearch lib this query k =
     (case bm25Retriever this of
        None \<Rightarrow> ([], this)
      | Some retriever \<Rightarrow>
          if \<not> retrieverIsIndexed this then ([], this)
          else (let retriever' = retriever\<lparr>bm25K := k\<rparr>;
                    this' = this\<lparr>bm25Retriever := Some retriever'\<rparr>
                in case bm25GetRelevantDocuments lib retriever' query of
                     Inl e \<Rightarrow> ([], this')
                   | Inr results \<Rightarrow> (map (rankedResult Keyword) (enumerate 0 results), this')))"

text \<open>\<^verbatim>\<open>semanticSearch(query, k)\<close> of this engine.\<close>

definition retrieverSemanticSearch :: "retrieverEngine \<Rightarrow> jsval \<Rightarrow> int \<Rightarrow> searchResult list" where
  "retrieverSemanticSearch this query k =
     (case similaritySearch this query k of
        Inl e \<Rightarrow> []
      | Inr results \<Rightarrow>
          map (\<lambda>result.
                 \<lparr>content = js_or (pageContent result) (content result), pageContent = Undefined,
                  metadata = metadata result,
                  score = (if score result = 0 then 0 else score result),
                  searchType = Some Semantic\<rparr>) results)"

text \<open>
  \<^verbatim>\<open>hybridSearch(query, options)\<close> of this engine. Without an index it falls back to the
  semantic search; with one, every exception of the ensemble retrieval is caught and the
  fallback is the semantic search again.
\<close>

definition semanticFallback :: "retrieverEngine \<Rightarrow> jsval \<Rightarrow> int \<Rightarrow> searchResult list" where
  "semanticFallback this query maxRes =
     map (\<lambda>r. r\<lparr>searchType := Some Hybrid\<rparr>) (retrieverSemanticSearch this query maxRes)"

definition retrieverHybridSearch ::
  "jsLibrary \<Rightarrow> retrieverEngine \<Rightarrow> jsval \<Rightarrow> hybridOptions \<Rightarrow> searchResult list \<times> retrieverEngine" where
  "retrieverHybridSearch lib this query options =
     (if \<not> retrieverIsIndexed this \<or> ensembleRetriever this = None
      then (semanticFallback this query (maxResults options), this)
      else (let this1 =
                  (if keywordWeight options \<noteq> 3/10 \<or> semanticWeight options \<noteq> 7/10
                   then this\<lparr>ensembleRetriever := Some (keywordWeight options, semanticWeight options)\<rparr>
                   else this)
            in case bm25Retriever this1 of
                 None \<Rightarrow> (semanticFallback this1 query (maxResults options), this1)
               | Some retriever \<Rightarrow>
                   (let retriever' = retriever\<lparr>bm25K := maxResults options * 2\<rparr>;
                        this2 = this1\<lparr>bm25Retriever := Some retriever'\<rparr>;
                        weights = (case ensembleRetriever this2 of
                                     Some w \<Rightarrow> w | None \<Rightarrow> (3/10, 7/10))
                    in case bm25GetRelevantDocuments lib retriever' query of
                         Inl e \<Rightarrow> (semanticFallback this2 query (maxResults options), this2)
                       | Inr keywordDocs \<Rightarrow>
                           (case vectorRetriever this2 query of
                              Inl e \<Rightarrow> (semanticFallback this2 query (maxResults options), this2)
                            | Inr semanticDocs \<Rightarrow>
                                (map (rankedResult Hybrid)
                                   (enumerate 0
                                      (slice0 (maxResults options)
                                         (ensembleFuse [(fst weights, keywordDocs),
                                                        (snd weights, semanticDocs)]))),
                                 this2)))))"

text \<open>A vector store with one chunk, for the scenarios.\<close>

definition oneChunkStore :: "jsval \<Rightarrow> int \<Rightarrow> js_error + searchResult list" where
  "oneChunkStore query k =
     Inr [\<lparr>content = Str (str ''apples are red''), pageContent = Undefined,
           metadata = Some \<lparr>source = Some (str ''docA''), chunkIndex = Some 0,
                            fileType = None, processedAt = None\<rparr>,
           score = 9/10, searchType = None\<rparr>]"


text \<open>A vector store with two chunks, the better one first.\<close>

definition twoChunkStore :: "jsval \<Rightarrow> int \<Rightarrow> js_error + searchResult list" where
  "twoChunkStore query k =
     Inr [\<lparr>content = Str (str ''apples are red''), pageContent = Undefined,
           metadata = Some \<lparr>source = Some (str ''docA''), chunkIndex = Some 0,
                            fileType = None, processedAt = None\<rparr>,
           score = 9/10, searchType = None\<rparr>,
          \<lparr>content = Str (str ''bananas are yellow''), pageContent = Undefined,
           metadata = Some \<lparr>source = Some (str ''docB''), chunkIndex = Some 0,
                            fileType = None, processedAt = None\<rparr>,
           score = 1/2, searchType = None\<rparr>]"

text \<open>
  \<^verbatim>\<open>buildIndex(documents, vectorStore)\<close> of the engine built on retrievers. A document that
  is not a LangChain \<^verbatim>\<open>Document\<close> is made one, with
  \<^verbatim>\<open>doc.pageContent || doc.content || ''\<close> as its \<^verbatim>\<open>pageContent\<close> and \<^verbatim>\<open>doc.metadata || {}\<close> as its
  metadata (on the fields of the model this leaves a \<^verbatim>\<open>Document\<close> as it is); the constructor
  of the \<^verbatim>\<open>BM25Retriever\<close> adds the preprocessed text of each to its \<^verbatim>\<open>TfIdf\<close>; the weights
  of the ensemble retriever are 0.3 and 0.7. The vector store is given by its
  \<^verbatim>\<open>similaritySearch\<close> and by the retriever that its \<^verbatim>\<open>asRetriever()\<close> returns. A
  \<^verbatim>\<open>Document\<close> has no score and no tag: its score is read as 0. (An exception would reject
  the call; the state it would leave behind is not modelled.)
\<close>

definition langchainDocument :: "searchResult \<Rightarrow> searchResult" where
  "langchainDocument doc =
     \<lparr>content = Undefined,
      pageContent = js_or (js_or (pageContent doc) (content doc)) (Str []),
      metadata = (case metadata doc of
                    None \<Rightarrow> Some \<lparr>source = None, chunkIndex = None,
                                    fileType = None, processedAt = None\<rparr>
                  | Some m \<Rightarrow> Some m),
      score = 0, searchType = None\<rparr>"

definition retrieverBuildIndex ::
  "jsLibrary \<Rightarrow> retrieverEngine \<Rightarrow> searchResult list
     \<Rightarrow> (jsval \<Rightarrow> int \<Rightarrow> js_error + searchResult list) \<Rightarrow> (jsval \<Rightarrow> js_error + searchResult list)
     \<Rightarrow> js_error + retrieverEngine" where
  "retrieverBuildIndex lib this docs store retriever =
     (let langchainDocs = map langchainDocument docs
      in case forEachE (\<lambda>doc. preprocessText lib (docContent doc)) langchainDocs of
           Inl e \<Rightarrow> Inl e
         | Inr texts \<Rightarrow>
             Inr (this\<lparr>retrieverDocuments := docs, similaritySearch := store,
                       vectorRetriever := retriever,
                       bm25Retriever := Some \<lparr>bm25Documents = langchainDocs, bm25K = 10,
                                               bm25Texts = texts\<rparr>,
                       ensembleRetriever := Some (3/10, 7/10),
                       retrieverIsIndexed := True\<rparr>))"

text \<open>
  A retriever that always throws, as that of a vector store whose search throws; and the
  engine that \<^verbatim>\<open>buildIndex\<close> makes of the scenario corpus and of the vector store that always
  throws.
\<close>

definition failingRetriever :: "jsval \<Rightarrow> js_error + searchResult list" where
  "failingRetriever query = Inl Thrown"

definition scenarioRetrieverEngine :: retrieverEngine where
  "scenarioRetrieverEngine =
     \<lparr>similaritySearch = failingStore, vectorRetriever = failingRetriever,
      bm25Retriever =
        Some \<lparr>bm25Documents = map langchainDocument scenarioCorpus, bm25K = 10,
              bm25Texts = [str ''apples are red'', str ''bananas are yellow'',
                           str ''green apples'', []]\<rparr>,
      ensembleRetriever = Some (3/10, 7/10),
      retrieverDocuments = scenarioCorpus,
      retrieverIsIndexed = True\<rparr>"
section \<open>The question classifier\<close>

text \<open>
  Matching under the flag \<^verbatim>\<open>i\<close> (without \<^verbatim>\<open>u\<close>): two code units match when their
  canonical forms are equal, and the canonical form of a code unit that the patterns of
  the classifier can meet is its upper case for an ASCII letter and itself otherwise
  (ECMAScript keeps a character that is not ASCII apart from every ASCII one).
\<close>

definition canonical :: "nat \<Rightarrow> nat" where
  "canonical c = (if 97 \<le> c \<and> c \<le> 122 then c - 32 else c)"

definition ciPrefix :: "jsstring \<Rightarrow> jsstring \<Rightarrow> bool" where
  "ciPrefix p s = (length p \<le> length s \<and> map canonical (take (length p) s) = map canonical p)"

text \<open>What \<^verbatim>\<open>.\<close> does not match: the line terminators.\<close>

definition isLineTerminator :: "nat \<Rightarrow> bool" where
  "isLineTerminator c = (c \<in> {10, 13, 8232, 8233})"

text \<open>The suffixes of a string: the places where an unanchored match can start.\<close>

fun tails :: "'a list \<Rightarrow> 'a list list" where
  "tails [] = [[]]"
| "tails (c # cs) = (c # cs) # tails cs"

text \<open>
  \<open>gapMatch [p\<^sub>1, \<dots>, p\<^sub>n] s\<close>: the string \<open>s\<close> starts with a match of
  \<^verbatim>\<open>.*p1.*p2 ... .*pn\<close>. A regular expression \<^verbatim>\<open>p0.*p1 ... .*pn\<close> matches somewhere in a
  string when a suffix starts with \<open>p\<^sub>0\<close> and goes on with such a match.
\<close>

fun gapMatch :: "jsstring list \<Rightarrow> jsstring \<Rightarrow> bool" where
  "gapMatch [] s = True"
| "gapMatch (p # ps) s =
     ((ciPrefix p s \<and> gapMatch ps (drop (length p) s))
      \<or> (case s of [] \<Rightarrow> False | c # cs \<Rightarrow> \<not> isLineTerminator c \<and> gapMatch (p # ps) cs))"

declare gapMatch.simps [simp del]

definition regexTest :: "jsstring list \<Rightarrow> jsstring \<Rightarrow> bool" where
  "regexTest pattern s =
     (case pattern of
        [] \<Rightarrow> True
      | p # ps \<Rightarrow> list_ex (\<lambda>t. ciPrefix p t \<and> gapMatch ps (drop (length p) t)) (tails s))"

text \<open>A pattern \<^verbatim>\<open>/^(a|b|...)$/i\<close>: the whole string is one of the alternatives.\<close>

definition wholeMatch :: "jsstring list \<Rightarrow> jsstring \<Rightarrow> bool" where
  "wholeMatch alternatives s = list_ex (\<lambda>a. map canonical s = map canonical a) alternatives"

text \<open>
  \<^verbatim>\<open>isLikelyGreeting(question)\<close>: the four patterns, on the trimmed question. The Chinese
  alternatives are written by their code units.
\<close>

definition greetingPatterns :: "jsstring list list" where
  "greetingPatterns =
     [[str ''hi'', str ''hello'', str ''hey'', [20320, 22909], [20877, 35265]],
      [str ''good morning'', str ''good afternoon'', str ''good evening''],
      [str ''how are you'', str ''how do you do''],
      [str ''thanks'', str ''thank you'', [35874, 35874]]]"

definition isLikelyGreeting :: "jsstring \<Rightarrow> bool" where
  "isLikelyGreeting question = list_ex (\<lambda>pattern. wholeMatch pattern (trim question)) greetingPatterns"

text \<open>\<^verbatim>\<open>isPersonalQuestion(question)\<close>: the six patterns, each the list of its pieces between \<^verbatim>\<open>.*\<close>.\<close>

definition personalPatterns :: "jsstring list list" where
  "personalPatterns =
     [[str ''what'', str ''your'', str ''name''],
      [str ''who'', str ''are'', str ''you''],
      [[20320, 21483, 20160, 20040, 21517, 23383]],
      [[20320, 26159, 35841]],
      [str ''what'', str ''can'', str ''you'', str ''do''],
      [str ''tell'', str ''about'', str ''yourself'']]"

definition isPersonalQuestion :: "jsstring \<Rightarrow> bool" where
  "isPersonalQuestion question = list_ex (\<lambda>pattern. regexTest pattern question) personalPatterns"

text \<open>\<^verbatim>\<open>cleaned.includes(sub)\<close>.\<close>

definition stringIncludes :: "jsstring \<Rightarrow> jsstring \<Rightarrow> bool" where
  "stringIncludes s sub = list_ex (\<lambda>t. take (length sub) t = sub) (tails s)"

datatype classification = DIRECT | SEARCH

text \<open>
  \<^verbatim>\<open>classifyQuestion(question)\<close> for a question that is a string. The classification
  chain is the call of the model: it returns a string or throws, and the \<^verbatim>\<open>catch\<close> tries
  the patterns again.
\<close>

definition classifyQuestion ::
  "jsLibrary \<Rightarrow> (jsstring \<Rightarrow> js_error + jsstring) \<Rightarrow> jsstring \<Rightarrow> classification" where
  "classifyQuestion lib classificationChain question =
     (if isLikelyGreeting question \<or> isPersonalQuestion question then DIRECT
      else (case classificationChain (trim question) of
              Inl error \<Rightarrow>
                if isLikelyGreeting question \<or> isPersonalQuestion question then DIRECT
                else SEARCH
            | Inr classification \<Rightarrow>
                (let cleanedClassification = toUpperCase lib (trim classification)
                 in if stringIncludes cleanedClassification (str ''DIRECT'') then DIRECT
                    else if stringIncludes cleanedClassification (str ''SEARCH'') then SEARCH
                    else SEARCH)))"

section \<open>The identity of a chunk\<close>

text \<open>
  For results that have a source and a chunk index, \<^verbatim>\<open>getDocumentId\<close> is the identity of
  the specification: two results have the same string exactly when they have the same
  source and the same chunk index.
\<close>

lemma decimal_value: "foldl (\<lambda>a c. 10 * a + (c - 48)) 0 (decimal n) = n"
proof (induction n rule: decimal.induct)
  case (1 n)
  show ?case
  proof (cases "n < 10")
    case True
    then show ?thesis by (simp add: decimal.simps [of n])
  next
    case False
    with "1" show ?thesis by (simp add: decimal.simps [of n])
  qed
qed

lemma decimal_inject: "decimal n = decimal m \<Longrightarrow> n = m"
  by (metis decimal_value)

lemma decimal_digits: "c \<in> set (decimal n) \<Longrightarrow> c \<noteq> 95"
proof (induction n rule: decimal.induct)
  case (1 n)
  show ?case
  proof (cases "n < 10")
    case True
    with "1.prems" show ?thesis by (auto simp: decimal.simps [of n])
  next
    case False
    have "n mod 10 < 10" by simp
    with False "1" show ?thesis by (auto simp: decimal.simps [of n])
  qed
qed

lemma split_last_underscore:
  assumes "s @ 95 # d = s' @ 95 # d'" and "\<forall>c \<in> set d. c \<noteq> (95::nat)" and "\<forall>c \<in> set d'. c \<noteq> 95"
  shows "s = s' \<and> d = d'"
proof -
  have "rev d @ 95 # rev s = rev d' @ 95 # rev s'"
    using assms(1) by (metis rev.simps(2) rev_append append_assoc append_Cons append_Nil)
  then have "takeWhile (\<lambda>c. c \<noteq> 95) (rev d @ 95 # rev s) = takeWhile (\<lambda>c. c \<noteq> 95) (rev d' @ 95 # rev s')"
    by simp
  then have "takeWhile (\<lambda>c. c \<noteq> 95) (rev d) = takeWhile (\<lambda>c. c \<noteq> 95) (rev d')"
    by (simp add: takeWhile_tail)
  moreover have "takeWhile (\<lambda>c. c \<noteq> 95) (rev d) = rev d"
    and "takeWhile (\<lambda>c. c \<noteq> 95) (rev d') = rev d'"
    using assms(2,3) by (simp_all add: takeWhile_eq_all_conv)
  ultimately have "rev d = rev d'"
    by simp
  then have "d = d'" by simp
  with assms(1) show ?thesis by simp
qed

lemma getDocumentId_identity:
  assumes "metadata a = Some ma" "source ma = Some sa" "sa \<noteq> []" "chunkIndex ma = Some ia"
    and "metadata b = Some mb" "source mb = Some sb" "sb \<noteq> []" "chunkIndex mb = Some ib"
  shows "(getDocumentId a = getDocumentId b) = (sa = sb \<and> ia = ib)"
proof
  assume "getDocumentId a = getDocumentId b"
  then have "sa @ 95 # decimal ia = sb @ 95 # decimal ib"
    using assms by (simp add: getDocumentId_def str_def)
  then have "sa = sb \<and> decimal ia = decimal ib"
    by (rule split_last_underscore) (auto dest: decimal_digits)
  then show "sa = sb \<and> ia = ib"
    by (auto dest: decimal_inject)
next
  assume "sa = sb \<and> ia = ib"
  then show "getDocumentId a = getDocumentId b"
    using assms by (simp add: getDocumentId_def)
qed

section \<open>Properties of the fusion\<close>

subsection \<open>The map of fused scores\<close>


lemma scoreOf_keywordStep:
  "scoreOf (keywordStep w p m) d = scoreOf m d + contribution w d p"
  by (auto simp: scoreOf_def keywordStep_def keywordEntry_def contribution_def Let_def
                 AList.update_conv' split: option.splits)

lemma scoreOf_semanticStep:
  "scoreOf (semanticStep w p m) d = scoreOf m d + contribution w d p"
  by (auto simp: scoreOf_def semanticStep_def semanticEntry_def contribution_def Let_def
                 AList.update_conv' split: option.splits)

lemma scoreOf_fold_keywordStep:
  "scoreOf (fold (keywordStep w) ps m) d = scoreOf m d + sum_list (map (contribution w d) ps)"
  by (induction ps arbitrary: m) (simp_all add: scoreOf_keywordStep)

lemma scoreOf_fold_semanticStep:
  "scoreOf (fold (semanticStep w) ps m) d = scoreOf m d + sum_list (map (contribution w d) ps)"
  by (induction ps arbitrary: m) (simp_all add: scoreOf_semanticStep)

lemma set_update_subset: "set (AList.update k v m) \<subseteq> insert (k, v) (set m)"
  by (induction m) auto

lemma getDocumentId_metadata:
  "metadata a = metadata b \<Longrightarrow> getDocumentId a = getDocumentId b"
  by (simp add: getDocumentId_def)

lemma keyed_update:
  assumes "keyed m" and "getDocumentId e = k"
  shows "keyed (AList.update k e m)"
proof -
  have "distinct (map fst (AList.update k e m))"
    using assms(1) by (simp add: keyed_def AList.distinct_update)
  moreover have "\<forall>(k', e') \<in> set (AList.update k e m). getDocumentId e' = k'"
    using assms set_update_subset [of k e m] by (auto simp: keyed_def)
  ultimately show ?thesis by (simp add: keyed_def)
qed

lemma keyed_lookup:
  "keyed m \<Longrightarrow> map_of m k = Some e \<Longrightarrow> getDocumentId e = k"
  by (auto simp: keyed_def dest: map_of_SomeD)

lemma keyed_keywordStep: "keyed m \<Longrightarrow> keyed (keywordStep w p m)"
  unfolding keywordStep_def Let_def
  by (auto split: option.splits intro!: keyed_update
           simp: getDocumentId_def keywordEntry_def dest: keyed_lookup)

lemma keyed_semanticStep: "keyed m \<Longrightarrow> keyed (semanticStep w p m)"
  unfolding semanticStep_def Let_def
  by (auto split: option.splits intro!: keyed_update
           simp: getDocumentId_def semanticEntry_def dest: keyed_lookup)

lemma keyed_fold_keywordStep: "keyed m \<Longrightarrow> keyed (fold (keywordStep w) ps m)"
  by (induction ps arbitrary: m) (simp_all add: keyed_keywordStep)

lemma keyed_fold_semanticStep: "keyed m \<Longrightarrow> keyed (fold (semanticStep w) ps m)"
  by (induction ps arbitrary: m) (simp_all add: keyed_semanticStep)

lemma keys_keywordStep:
  "fst ` set (keywordStep w p m) = insert (getDocumentId (snd p)) (fst ` set m)"
  by (simp add: keywordStep_def Let_def AList.dom_update split: option.splits)

lemma keys_semanticStep:
  "fst ` set (semanticStep w p m) = insert (getDocumentId (snd p)) (fst ` set m)"
  by (simp add: semanticStep_def Let_def AList.dom_update split: option.splits)

lemma keys_fold_keywordStep:
  "fst ` set (fold (keywordStep w) ps m) = fst ` set m \<union> getDocumentId ` snd ` set ps"
  by (induction ps arbitrary: m) (auto simp: keys_keywordStep)

lemma keys_fold_semanticStep:
  "fst ` set (fold (semanticStep w) ps m) = fst ` set m \<union> getDocumentId ` snd ` set ps"
  by (induction ps arbitrary: m) (auto simp: keys_semanticStep)

lemma fuseResults_fusedMap:
  "fuseResults kw sem wk ws =
     map fusedOutput (sort_key (\<lambda>e. - fusedScore e) (map snd (fusedMap kw sem wk ws)))"
  by (simp add: fuseResults_def)

lemma keyed_fusedMap: "keyed (fusedMap kw sem wk ws)"
  unfolding fusedMap_def
  by (intro keyed_fold_semanticStep keyed_fold_keywordStep) (simp add: keyed_def)

lemma keys_fusedMap:
  "fst ` set (fusedMap kw sem wk ws) = getDocumentId ` set kw \<union> getDocumentId ` set sem"
proof -
  have "snd ` set (enumerate 0 xs) = set xs" for xs :: "searchResult list"
    by (metis list.set_map map_snd_enumerate)
  then show ?thesis
    by (auto simp: fusedMap_def keys_fold_semanticStep keys_fold_keywordStep)
qed

lemma scoreOf_fusedMap:
  "scoreOf (fusedMap kw sem wk ws) d =
     sum_list (map (contribution wk d) (enumerate 0 kw))
   + sum_list (map (contribution ws d) (enumerate 0 sem))"
proof -
  have "scoreOf [] d = 0"
    by (simp add: scoreOf_def)
  then show ?thesis
    by (simp add: fusedMap_def scoreOf_fold_semanticStep scoreOf_fold_keywordStep)
qed

lemma getDocumentId_fusedOutput [simp]: "getDocumentId (fusedOutput e) = getDocumentId e"
  by (simp add: fusedOutput_def getDocumentId_def)

lemma score_fusedOutput [simp]: "score (fusedOutput e) = fusedScore e"
  by (simp add: fusedOutput_def)

lemma keyed_values_ids: "keyed m \<Longrightarrow> map getDocumentId (map snd m) = map fst m"
  by (auto simp: keyed_def)

lemma keyed_scoreOf:
  "keyed m \<Longrightarrow> e \<in> set (map snd m) \<Longrightarrow> scoreOf m (getDocumentId e) = fusedScore e"
  by (auto simp: keyed_def scoreOf_def map_of_eq_Some_iff [THEN iffD2])

lemma fuseResults_score:
  assumes "r \<in> set (fuseResults kw sem wk ws)"
  shows "score r =
     sum_list (map (contribution wk (getDocumentId r)) (enumerate 0 kw))
   + sum_list (map (contribution ws (getDocumentId r)) (enumerate 0 sem))"
proof -
  from assms obtain e where e: "e \<in> set (map snd (fusedMap kw sem wk ws))" and r: "r = fusedOutput e"
    by (auto simp: fuseResults_fusedMap)
  have "fusedScore e = scoreOf (fusedMap kw sem wk ws) (getDocumentId e)"
    using keyed_scoreOf [OF keyed_fusedMap e] by simp
  then show ?thesis
    by (simp add: r scoreOf_fusedMap)
qed

lemma ids_sorted_values:
  assumes "keyed m"
  shows "distinct (map getDocumentId (sort_key f (map snd m)))"
    and "getDocumentId ` set (sort_key f (map snd m)) = fst ` set m"
proof -
  have d: "distinct (map getDocumentId (map snd m))"
    using assms by (simp only: keyed_values_ids) (simp add: keyed_def)
  then have "distinct (map snd m)" and "inj_on getDocumentId (set (map snd m))"
    by (simp_all only: distinct_map)
  then show "distinct (map getDocumentId (sort_key f (map snd m)))"
    by (simp only: distinct_map distinct_sort set_sort)
  have "getDocumentId ` set (map snd m) = set (map fst m)"
    using keyed_values_ids [OF assms] by (metis list.set_map)
  then show "getDocumentId ` set (sort_key f (map snd m)) = fst ` set m"
    by (simp only: set_sort) simp
qed

lemma fuseResults_distinct: "distinct (map getDocumentId (fuseResults kw sem wk ws))"
  using ids_sorted_values(1) [OF keyed_fusedMap, of "\<lambda>e. - fusedScore e" kw sem wk ws]
  by (simp add: fuseResults_fusedMap comp_def)

lemma fuseResults_ids:
  "getDocumentId ` set (fuseResults kw sem wk ws) = getDocumentId ` set kw \<union> getDocumentId ` set sem"
  using ids_sorted_values(2) [OF keyed_fusedMap, of "\<lambda>e. - fusedScore e" kw sem wk ws]
  by (simp add: fuseResults_fusedMap keys_fusedMap image_image)

lemma sum_contribution:
  "sum_list (map (contribution w d) (enumerate 0 xs))
     = (\<Sum>i | i < length xs \<and> getDocumentId (xs ! i) = d. w / (60 + real i + 1))"
proof -
  have S: "{i. i < length xs \<and> getDocumentId (xs ! i) = d}
           = {i \<in> {0..<length xs}. getDocumentId (xs ! i) = d}"
    by auto
  have "map (contribution w d) (enumerate 0 xs)
        = map (\<lambda>i. if getDocumentId (xs ! i) = d then w / (60 + real i + 1) else 0) [0..<length xs]"
    by (rule nth_equalityI) (simp_all add: nth_enumerate_eq contribution_def)
  then have "sum_list (map (contribution w d) (enumerate 0 xs))
        = (\<Sum>i\<in>{0..<length xs}. if getDocumentId (xs ! i) = d then w / (60 + real i + 1) else 0)"
    by (simp add: interv_sum_list_conv_sum_set_nat)
  also have "\<dots> = sum (\<lambda>i. w / (60 + real i + 1)) {i \<in> {0..<length xs}. getDocumentId (xs ! i) = d}"
    by (rule sum.inter_filter [symmetric]) simp
  finally show ?thesis
    by (simp only: S)
qed

subsection \<open>A list without repeated chunks\<close>


lemma update_fresh: "k \<notin> fst ` set m \<Longrightarrow> AList.update k v m = m @ [(k, v)]"
  by (induction m) auto

lemma map_of_fresh: "k \<notin> fst ` set m \<Longrightarrow> map_of m k = None"
  by (simp add: map_of_eq_None_iff)

lemma fold_keywordStep_fresh:
  "distinct (map getDocumentId xs) \<Longrightarrow> getDocumentId ` set xs \<inter> fst ` set m = {} \<Longrightarrow>
   fold (keywordStep w) (enumerate n xs) m
     = m @ map (\<lambda>p. (getDocumentId (snd p), keywordEntry (w / (60 + real (fst p) + 1)) (fst p) (snd p)))
              (enumerate n xs)"
proof (induction xs arbitrary: n m)
  case Nil
  then show ?case by simp
next
  case (Cons x xs)
  have fresh: "getDocumentId x \<notin> fst ` set m"
    using Cons.prems(2) by auto
  have step: "keywordStep w (n, x) m
      = m @ [(getDocumentId x, keywordEntry (w / (60 + real n + 1)) n x)]"
    by (simp add: keywordStep_def Let_def map_of_fresh [OF fresh] update_fresh [OF fresh])
  have "getDocumentId ` set xs \<inter> fst ` set (keywordStep w (n, x) m) = {}"
    using Cons.prems by (auto simp: step)
  moreover have "distinct (map getDocumentId xs)"
    using Cons.prems(1) by simp
  ultimately show ?case
    using Cons.IH [of "keywordStep w (n, x) m" "Suc n"] by (simp add: step)
qed

lemma map_snd_enumerate': "map (\<lambda>p. f (snd p)) (enumerate n xs) = map f xs"
  by (induction xs arbitrary: n) simp_all

lemma map_fst_enumerate': "map (\<lambda>p. f (fst p)) (enumerate n xs) = map f [n..<n + length xs]"
proof -
  have "map (\<lambda>p. f (fst p)) (enumerate n xs) = map f (map fst (enumerate n xs))"
    by (simp only: map_map comp_def)
  then show ?thesis
    by (simp only: map_fst_enumerate)
qed

lemma rrf_sorted:
  "sorted (map (\<lambda>p. - (1 / (60 + real (fst p) + 1))) (enumerate n (xs :: 'a list)))"
  unfolding map_fst_enumerate' [of "\<lambda>i. - (1 / (60 + real i + 1))"]
  by (simp add: sorted_map sorted_wrt_iff_nth_less frac_le)

lemma fuseResults_score_sets:
  assumes "r \<in> set (fuseResults kw sem wk ws)"
  shows "score r =
      (\<Sum>i | i < length kw \<and> getDocumentId (kw ! i) = getDocumentId r. wk / (60 + real (i + 1)))
    + (\<Sum>i | i < length sem \<and> getDocumentId (sem ! i) = getDocumentId r. ws / (60 + real (i + 1)))"
  using fuseResults_score [OF assms] by (simp add: sum_contribution)

lemma distinct_count_one:
  "distinct ds \<Longrightarrow> length (filter (\<lambda>d. d = u) ds) = (if u \<in> set ds then 1 else 0)"
  by (induction ds) auto

lemma fuseResults_one_entry:
  "length (filter (\<lambda>r. getDocumentId r = u) (fuseResults kw sem wk ws))
     = (if u \<in> getDocumentId ` set kw \<union> getDocumentId ` set sem then 1 else 0)"
proof -
  let ?out = "fuseResults kw sem wk ws"
  have "length (filter (\<lambda>r. getDocumentId r = u) ?out)
        = length (filter (\<lambda>d. d = u) (map getDocumentId ?out))"
    by (simp add: filter_map comp_def)
  also have "\<dots> = (if u \<in> set (map getDocumentId ?out) then 1 else 0)"
    by (rule distinct_count_one) (rule fuseResults_distinct)
  finally show ?thesis
    using fuseResults_ids [of kw sem wk ws] by simp
qed

lemma getDocumentId_lacksIdentity:
  "lacksIdentity a \<Longrightarrow> getDocumentId a = str ''unknown_0''"
  by (auto simp: lacksIdentity_def getDocumentId_def str_def decimal.simps split: option.splits)

lemmas fusion_eval =
  fuseResults_def fusedMap_def keywordStep_def semanticStep_def keywordEntry_def
  semanticEntry_def fusedOutput_def getDocumentId_def resultOf_def str_def decimal.simps Let_def
  scenarioKeyword_def scenarioSemantic_def

section \<open>Properties of the grouping\<close>

lemma shownContent_display: "shownContent r = displayContent r"
  by (simp add: shownContent_def displayContent_def js_or_def)

lemma resultSource_Some: "metadata r = Some md \<Longrightarrow> resultSource r = sourceName md"
  by (simp add: resultSource_def sourceName_def)

lemma resultChunk_Some:
  "metadata r = Some md \<Longrightarrow>
   resultChunk r = \<lparr>chunk_chunkIndex = chunkIndexOr0 md + 1, chunk_score = score r,
                    chunk_content = displayContent r\<rparr>"
  by (simp add: resultChunk_def chunkIndexOr0_def shownContent_display)

lemma extractStep_ok: "groupable r \<Longrightarrow> extractStep r m = Inr (addResult r m)"
proof -
  assume "groupable r"
  then obtain md where md: "metadata r = Some md"
    and c: "case displayContent r of Other b \<Rightarrow> False | _ \<Rightarrow> True"
    by (auto simp: groupable_def shownContent_display)
  from c show ?thesis
    by (cases "displayContent r")
      (simp_all add: extractStep_def addResult_def md resultSource_Some [OF md]
         resultChunk_Some [OF md] resultGroup_def Let_def)
qed

lemma extractStep_fail: "\<not> groupable r \<Longrightarrow> \<exists>e. extractStep r m = Inl e"
  by (auto simp: groupable_def extractStep_def shownContent_display Let_def
           split: option.splits jsval.splits)

lemma extractLoop_ok:
  "\<forall>r \<in> set rs. groupable r \<Longrightarrow> extractLoop rs m = Inr (fold addResult rs m)"
  by (induction rs arbitrary: m) (simp_all add: extractStep_ok)

lemma extractLoop_fail:
  "\<exists>r \<in> set rs. \<not> groupable r \<Longrightarrow> \<exists>e. extractLoop rs m = Inl e"
proof (induction rs arbitrary: m)
  case Nil
  then show ?case by simp
next
  case (Cons r rs)
  show ?case
  proof (cases "groupable r")
    case True
    with Cons.prems have "\<exists>r \<in> set rs. \<not> groupable r" by auto
    with Cons.IH True show ?thesis by (simp add: extractStep_ok)
  next
    case False
    from extractStep_fail [OF this, of m] show ?thesis by auto
  qed
qed

lemma firstSeen_snoc:
  "firstSeen (xs @ [x]) = (if x \<in> set (firstSeen xs) then firstSeen xs else firstSeen xs @ [x])"
  by (simp add: firstSeen_def)

lemma set_firstSeen [simp]: "set (firstSeen xs) = set xs"
  by (induction xs rule: rev_induct) (auto simp: firstSeen_snoc, simp add: firstSeen_def)

lemma distinct_firstSeen [simp]: "distinct (firstSeen xs)"
  by (induction xs rule: rev_induct) (auto simp: firstSeen_snoc, simp add: firstSeen_def)

lemma find_append:
  "find P (xs @ ys) = (case find P xs of None \<Rightarrow> find P ys | Some x \<Rightarrow> Some x)"
  by (induction xs) auto

lemma map_entry_tabulate:
  "distinct ks \<Longrightarrow>
   AList.map_entry k f (map (\<lambda>s. (s, g s)) ks) = map (\<lambda>s. (s, if s = k then f (g s) else g s)) ks"
  by (induction ks) auto

lemma map_entry_fresh_snoc:
  "k \<notin> fst ` set m \<Longrightarrow> AList.map_entry k f (m @ [(k, v)]) = m @ [(k, f v)]"
  by (induction m) auto

lemma map_of_tabulate: "map_of (map (\<lambda>s. (s, g s)) ks) k = (if k \<in> set ks then Some (g k) else None)"
  by (induction ks) auto


lemma groupFor_snoc_same:
  "resultSource r = s \<Longrightarrow> s \<in> resultSource ` set rs \<Longrightarrow>
   groupFor (rs @ [r]) s = (groupFor rs s)\<lparr>chunks := chunks (groupFor rs s) @ [resultChunk r]\<rparr>"
proof -
  assume s: "resultSource r = s" and "s \<in> resultSource ` set rs"
  then obtain x where "find (\<lambda>r. resultSource r = s) rs = Some x"
    by (cases "find (\<lambda>r. resultSource r = s) rs") (auto simp: find_None_iff)
  then show ?thesis
    by (simp add: groupFor_def find_append s)
qed

lemma groupFor_snoc_other:
  "resultSource r \<noteq> s \<Longrightarrow> groupFor (rs @ [r]) s = groupFor rs s"
  by (simp add: groupFor_def find_append split: option.splits)

lemma groupFor_snoc_new:
  "resultSource r = s \<Longrightarrow> s \<notin> resultSource ` set rs \<Longrightarrow>
   groupFor (rs @ [r]) s = (resultGroup r)\<lparr>chunks := [resultChunk r]\<rparr>"
proof -
  assume s: "resultSource r = s" and new: "s \<notin> resultSource ` set rs"
  then have "find (\<lambda>r. resultSource r = s) rs = None"
    by (auto simp: find_None_iff image_iff)
  moreover from new have "filter (\<lambda>r. resultSource r = s) rs = []"
    by (auto simp: filter_empty_conv image_iff)
  ultimately show ?thesis
    by (simp add: groupFor_def find_append s)
qed

lemma fold_addResult:
  "fold addResult rs [] = map (\<lambda>s. (s, groupFor rs s)) (firstSeen (map resultSource rs))"
proof (induction rs rule: rev_induct)
  case Nil
  then show ?case by (simp add: firstSeen_def)
next
  case (snoc r rs)
  let ?ks = "firstSeen (map resultSource rs)"
  let ?s = "resultSource r"
  let ?f = "\<lambda>g. g\<lparr>chunks := chunks g @ [resultChunk r]\<rparr>"
  show ?case
  proof (cases "?s \<in> resultSource ` set rs")
    case True
    then have in_ks: "?s \<in> set ?ks" by simp
    have "addResult r (map (\<lambda>s. (s, groupFor rs s)) ?ks)
          = map (\<lambda>s. (s, if s = ?s then ?f (groupFor rs s) else groupFor rs s)) ?ks"
      by (simp add: addResult_def map_of_tabulate in_ks map_entry_tabulate del: set_firstSeen)
    also have "\<dots> = map (\<lambda>s. (s, groupFor (rs @ [r]) s)) ?ks"
      using True by (auto simp: groupFor_snoc_same groupFor_snoc_other)
    finally show ?thesis
      using in_ks by (simp add: snoc.IH firstSeen_snoc del: set_firstSeen)
  next
    case False
    then have not_ks: "?s \<notin> set ?ks" by simp
    then have fresh: "?s \<notin> fst ` set (map (\<lambda>s. (s, groupFor rs s)) ?ks)"
      by (simp add: image_image del: set_firstSeen)
    have "addResult r (map (\<lambda>s. (s, groupFor rs s)) ?ks)
          = map (\<lambda>s. (s, groupFor rs s)) ?ks @ [(?s, ?f (resultGroup r))]"
      using not_ks
      by (simp add: addResult_def map_of_tabulate update_fresh [OF fresh]
            map_entry_fresh_snoc [OF fresh] del: set_firstSeen)
    also have "\<dots> = map (\<lambda>s. (s, groupFor (rs @ [r]) s)) (?ks @ [?s])"
    proof -
      have "\<And>s. s \<in> set ?ks \<Longrightarrow> groupFor (rs @ [r]) s = groupFor rs s"
        using not_ks by (intro groupFor_snoc_other) auto
      moreover have "?f (resultGroup r) = groupFor (rs @ [r]) ?s"
        using False by (simp add: groupFor_snoc_new resultGroup_def newGroup_def split: option.splits)
      ultimately show ?thesis by simp
    qed
    finally show ?thesis
      using not_ks by (simp add: snoc.IH firstSeen_snoc del: set_firstSeen)
  qed
qed

lemma filename_resultGroup [simp]: "filename (resultGroup r) = resultSource r"
  by (simp add: resultGroup_def resultSource_def newGroup_def sourceName_def split: option.splits)

lemma groupFor_present:
  assumes "s \<in> resultSource ` set rs"
  shows "\<exists>r. find (\<lambda>r. resultSource r = s) rs = Some r
           \<and> groupFor rs s
               = (resultGroup r)\<lparr>chunks := map resultChunk (filter (\<lambda>r. resultSource r = s) rs)\<rparr>"
proof -
  from assms obtain x where "find (\<lambda>r. resultSource r = s) rs = Some x"
    by (cases "find (\<lambda>r. resultSource r = s) rs") (auto simp: find_None_iff)
  then show ?thesis
    by (simp add: groupFor_def)
qed

lemma filename_groupFor: "s \<in> resultSource ` set rs \<Longrightarrow> filename (groupFor rs s) = s"
  using groupFor_present [of s rs] by (auto simp: find_Some_iff)

lemma extractSources_ok:
  assumes "\<forall>r \<in> set rs. groupable r"
  shows "extractSources rs =
     Inr (map (\<lambda>s. (groupFor rs s)\<lparr>chunks := sort_key chunk_chunkIndex (chunks (groupFor rs s))\<rparr>)
            (firstSeen (map resultSource rs)))"
  by (simp add: extractSources_def extractLoop_ok [OF assms] fold_addResult comp_def)

lemma extractSources_fail:
  "\<exists>r \<in> set rs. \<not> groupable r \<Longrightarrow> \<exists>e. extractSources rs = Inl e"
  using extractLoop_fail [of rs "[]"] by (auto simp: extractSources_def)

lemma extractSources_Inr_groupable:
  assumes "extractSources rs = Inr gs"
  shows "\<forall>r \<in> set rs. groupable r"
proof (rule ccontr)
  assume "\<not> (\<forall>r \<in> set rs. groupable r)"
  then have "\<exists>r \<in> set rs. \<not> groupable r"
    by simp
  from extractSources_fail [OF this] obtain e where "extractSources rs = Inl e" ..
  with assms show False
    by simp
qed

section \<open>Properties of the keyword search\<close>

lemma preprocessText_total: "\<exists>s. preprocessText lib v = Inr s"
  by (cases v) (simp_all add: preprocessText_def callToLowerCase_def)

lemma preprocessText_noText:
  "noText doc \<Longrightarrow> preprocessText lib (docContent doc) = Inr []"
  by (cases "docContent doc") (simp_all add: noText_def preprocessText_def)

lemma forEachE_total:
  assumes "\<And>x. \<exists>y. f x = Inr y"
  shows "\<exists>ys. forEachE f xs = Inr ys \<and> length ys = length xs
              \<and> (\<forall>i < length xs. f (xs ! i) = Inr (ys ! i))"
proof (induction xs)
  case Nil
  then show ?case by simp
next
  case (Cons x xs)
  from assms obtain y where y: "f x = Inr y" by blast
  from Cons.IH obtain ys where ys: "forEachE f xs = Inr ys" "length ys = length xs"
      "\<forall>i < length xs. f (xs ! i) = Inr (ys ! i)"
    by blast
  have "\<forall>i < length (x # xs). f ((x # xs) ! i) = Inr ((y # ys) ! i)"
    using y ys(3) by (auto simp: nth_Cons')
  with y ys(1,2) show ?case by simp
qed

lemma buildIndex_total:
  "\<exists>e. buildIndex lib this docs = Inr e \<and> isIndexed e \<and> documents e = docs
       \<and> length (tfidfDocuments e) = length docs
       \<and> (\<forall>i < length docs. preprocessText lib (docContent (docs ! i)) = Inr (tfidfDocuments e ! i))"
proof -
  from forEachE_total [of "\<lambda>doc. preprocessText lib (docContent doc)" docs]
  obtain texts where "forEachE (\<lambda>doc. preprocessText lib (docContent doc)) docs = Inr texts"
    and "length texts = length docs"
    and "\<forall>i < length docs. preprocessText lib (docContent (docs ! i)) = Inr (texts ! i)"
    using preprocessText_total by blast
  then show ?thesis
    by (simp add: buildIndex_def)
qed

lemma fold_add_sum_list:
  "fold (\<lambda>x (s::real). s + g x) xs a = a + sum_list (map g xs)"
  by (induction xs arbitrary: a) simp_all

lemma documentScore_summed:
  "preprocessText lib query = Inr p \<Longrightarrow>
   documentScore lib this (queryTermsOf p) i = summedScore lib this query i"
  by (simp add: documentScore_def summedScore_def termsOfQuery_def fold_add_sum_list)

lemma insort_key_map:
  "insort_key f (g x) (map g ys) = map g (insort_key (\<lambda>x. f (g x)) x ys)"
  by (induction ys) simp_all

lemma sort_key_map:
  "sort_key f (map g xs) = map g (sort_key (\<lambda>x. f (g x)) xs)"
  by (induction xs) (simp_all add: insort_key_map)

lemma insort_ranked:
  assumes "sorted_wrt (rankedBefore sc) ys" and "\<forall>y \<in> set ys. x < y"
  shows "sorted_wrt (rankedBefore sc) (insort_key (\<lambda>i. - sc i) x ys)"
  using assms
proof (induction ys)
  case Nil
  then show ?case by simp
next
  case (Cons y ys)
  show ?case
  proof (cases "sc y \<le> sc x")
    case True
    have "\<forall>z \<in> set (y # ys). rankedBefore sc x z"
    proof
      fix z assume z: "z \<in> set (y # ys)"
      then have "sc z \<le> sc y"
        using Cons.prems(1) by (auto simp: rankedBefore_def)
      with True z Cons.prems(2) show "rankedBefore sc x z"
        by (auto simp: rankedBefore_def)
    qed
    with True Cons.prems(1) show ?thesis by simp
  next
    case False
    then have "rankedBefore sc y x"
      by (simp add: rankedBefore_def)
    moreover have "sorted_wrt (rankedBefore sc) (insort_key (\<lambda>i. - sc i) x ys)"
      using Cons by simp
    ultimately show ?thesis
      using False Cons.prems(1) by (auto simp: set_insort_key)
  qed
qed

lemma sort_ranked:
  "sorted_wrt (<) xs \<Longrightarrow> sorted_wrt (rankedBefore sc) (sort_key (\<lambda>i. - sc i) xs)"
  by (induction xs) (auto intro: insort_ranked)

lemma summedScore_no_terms: "termsOfQuery lib query = [] \<Longrightarrow> summedScore lib this query i = 0"
  by (simp add: summedScore_def)

lemma slice0_map: "slice0 k (map f xs) = map f (slice0 k xs)"
  by (simp add: slice0_def take_map)

lemma score_keywordHit [simp]: "score (keywordHit this i s) = s"
  by (simp add: keywordHit_def)

lemma keywordHit_fields:
  "keywordHit this i s =
     \<lparr>content = documentText (documents this ! i), pageContent = Undefined,
      metadata = metadata (documents this ! i), score = s, searchType = Some Keyword\<rparr>"
  by (simp add: keywordHit_def docContent_def js_or_def documentText_def)

lemma keywordSearch_indexed:
  assumes "isIndexed this"
  shows "keywordSearch lib this query k =
     Inr (map (\<lambda>i. keywordHit this i (summedScore lib this query i))
            (slice0 k (rankedDocuments lib this query)))"
proof -
  from preprocessText_total obtain p where p: "preprocessText lib query = Inr p"
    by blast
  let ?sc = "summedScore lib this query"
  let ?n = "length (documents this)"
  show ?thesis
  proof (cases "queryTermsOf p = []")
    case True
    then have "termsOfQuery lib query = []"
      by (simp add: termsOfQuery_def p)
    then have "filter (\<lambda>i. 0 < ?sc i) [0..<?n] = []"
      by (simp add: summedScore_no_terms)
    then have "rankedDocuments lib this query = []"
      by (simp add: rankedDocuments_def)
    with True show ?thesis
      by (simp add: keywordSearch_def assms p slice0_def)
  next
    case False
    have sc: "documentScore lib this (queryTermsOf p) = ?sc"
      by (rule ext) (rule documentScore_summed [OF p])
    have "List.map_filter
            (\<lambda>i. let s = documentScore lib this (queryTermsOf p) i
                  in if s > 0 then Some (keywordHit this i s) else None) [0..<?n]
          = map (\<lambda>i. keywordHit this i (?sc i)) (filter (\<lambda>i. 0 < ?sc i) [0..<?n])"
      by (simp add: sc Let_def map_filter_map_filter)
    then have "keywordSearch lib this query k =
       Inr (slice0 k (sort_key (\<lambda>r. - score r)
              (map (\<lambda>i. keywordHit this i (?sc i)) (filter (\<lambda>i. 0 < ?sc i) [0..<?n]))))"
      using False by (simp add: keywordSearch_def assms p Let_def)
    then show ?thesis
      by (simp add: sort_key_map slice0_map rankedDocuments_def)
  qed
qed

lemma set_rankedDocuments:
  "set (rankedDocuments lib this query)
     = {i. i < length (documents this) \<and> 0 < summedScore lib this query i}"
  by (auto simp: rankedDocuments_def)

lemma distinct_rankedDocuments: "distinct (rankedDocuments lib this query)"
  by (simp add: rankedDocuments_def distinct_sort)

lemma sorted_rankedDocuments:
  "sorted_wrt (rankedBefore (summedScore lib this query)) (rankedDocuments lib this query)"
  unfolding rankedDocuments_def
proof (rule sort_ranked)
  have "sorted_wrt (<) [0..<length (documents this)]"
    by (simp add: sorted_wrt_iff_nth_less)
  then show "sorted_wrt (<) (filter (\<lambda>i. 0 < summedScore lib this query i) [0..<length (documents this)])"
    by (rule sorted_wrt_filter)
qed

lemma sorted_wrt_take_drop:
  "sorted_wrt R xs \<Longrightarrow> i \<in> set (take m xs) \<Longrightarrow> j \<in> set (drop m xs) \<Longrightarrow> R i j"
  by (metis append_take_drop_id sorted_wrt_append)

lemmas keyword_eval =
  keywordSearch_def preprocessText_def callToLowerCase_def blankPunctuation_def trim_def
  queryTermsOf_def documentScore_def keywordHit_def docContent_def js_or_def slice0_def
  asciiLibrary_def asciiLower_def termFrequency_def scenarioEngine_def scenarioCorpus_def
  docOf_def resultOf_def str_def isWordChar_def isSpace_def isCJK_def Let_def
  List.map_filter_simps upt_rec [of 0] upt_rec [of 1] upt_rec [of 2] upt_rec [of 3] upt_rec [of 4]

lemma scenarioEngine_built:
  "buildIndex asciiLibrary (newEngine failingStore) scenarioCorpus = Inr scenarioEngine"
  by (simp add: buildIndex_def newEngine_def keyword_eval)

lemma asciiLibrary_emptyText: "emptyTextScoresZero asciiLibrary"
  by (simp add: emptyTextScoresZero_def asciiLibrary_def termFrequency_def queryTermsOf_def)

section \<open>Properties of the semantic and the hybrid search\<close>

lemma keywordSearch_total: "\<exists>rs. keywordSearch lib this query k = Inr rs"
proof (cases "isIndexed this")
  case True
  then show ?thesis by (simp add: keywordSearch_indexed)
next
  case False
  then show ?thesis by (simp add: keywordSearch_def)
qed

lemma fuseResults_empty_iff: "(fuseResults kw sem wk ws = []) = (kw = [] \<and> sem = [])"
proof -
  have "(fuseResults kw sem wk ws = []) = (getDocumentId ` set (fuseResults kw sem wk ws) = {})"
    by simp
  also have "\<dots> = (kw = [] \<and> sem = [])"
    by (simp only: fuseResults_ids) simp
  finally show ?thesis .
qed

lemma slice0_empty_iff: "1 \<le> m \<Longrightarrow> (slice0 m xs = []) = (xs = [])"
  by (auto simp: slice0_def)

lemma set_slice0: "set (slice0 m xs) \<subseteq> set xs"
  by (auto simp: slice0_def dest: in_set_takeD)

lemma keywordStep_semanticRank:
  "\<forall>e \<in> snd ` set m. semanticRank e = None \<Longrightarrow>
   \<forall>e \<in> snd ` set (keywordStep w p m). semanticRank e = None"
proof -
  assume inv: "\<forall>e \<in> snd ` set m. semanticRank e = None"
  have sub: "\<And>k v. set (AList.update k v m) \<subseteq> insert (k, v) (set m)"
    by (rule set_update_subset)
  show ?thesis
  proof (cases "map_of m (getDocumentId (snd p))")
    case None
    then show ?thesis
      using inv sub [of "getDocumentId (snd p)"]
      by (fastforce simp: keywordStep_def Let_def keywordEntry_def)
  next
    case (Some ex)
    then have "semanticRank ex = None"
      using inv by (force dest: map_of_SomeD)
    with Some show ?thesis
      using inv sub [of "getDocumentId (snd p)"]
      by (fastforce simp: keywordStep_def Let_def)
  qed
qed

lemma fold_keywordStep_semanticRank:
  "\<forall>e \<in> snd ` set m. semanticRank e = None \<Longrightarrow>
   \<forall>e \<in> snd ` set (fold (keywordStep w) ps m). semanticRank e = None"
proof (induction ps arbitrary: m)
  case Nil
  then show ?case by simp
next
  case (Cons p ps)
  from keywordStep_semanticRank [OF Cons.prems]
  have "\<forall>e \<in> snd ` set (keywordStep w p m). semanticRank e = None" .
  from Cons.IH [OF this] show ?case by simp
qed

lemma fuseResults_keyword_only:
  "r \<in> set (fuseResults kw [] wk ws) \<Longrightarrow> semanticRank r = None"
proof -
  assume "r \<in> set (fuseResults kw [] wk ws)"
  then obtain e where e: "e \<in> snd ` set (fusedMap kw [] wk ws)" and r: "r = fusedOutput e"
    by (auto simp: fuseResults_def)
  have "\<forall>e \<in> snd ` set (fold (keywordStep wk) (enumerate 0 kw) []). semanticRank e = None"
    by (rule fold_keywordStep_semanticRank) simp
  with e have "semanticRank e = None"
    unfolding fusedMap_def by (simp del: ball_simps)
  then show ?thesis
    by (simp add: r fusedOutput_def)
qed

lemma fold_semanticStep_fresh:
  "distinct (map getDocumentId xs) \<Longrightarrow> getDocumentId ` set xs \<inter> fst ` set m = {} \<Longrightarrow>
   fold (semanticStep w) (enumerate n xs) m
     = m @ map (\<lambda>p. (getDocumentId (snd p), semanticEntry (w / (60 + real (fst p) + 1)) (fst p) (snd p)))
              (enumerate n xs)"
proof (induction xs arbitrary: n m)
  case Nil
  then show ?case by simp
next
  case (Cons x xs)
  have fresh: "getDocumentId x \<notin> fst ` set m"
    using Cons.prems(2) by auto
  have step: "semanticStep w (n, x) m
      = m @ [(getDocumentId x, semanticEntry (w / (60 + real n + 1)) n x)]"
    by (simp add: semanticStep_def Let_def map_of_fresh [OF fresh] update_fresh [OF fresh])
  have "getDocumentId ` set xs \<inter> fst ` set (semanticStep w (n, x) m) = {}"
    using Cons.prems by (auto simp: step)
  moreover have "distinct (map getDocumentId xs)"
    using Cons.prems(1) by simp
  ultimately show ?case
    using Cons.IH [of "semanticStep w (n, x) m" "Suc n"] by (simp add: step)
qed

lemma rrf_sorted_weight:
  "0 \<le> w \<Longrightarrow> sorted (map (\<lambda>p. - (w / (60 + real (fst p) + 1))) (enumerate n (xs :: 'a list)))"
  unfolding map_fst_enumerate' [of "\<lambda>i. - (w / (60 + real i + 1))"]
  by (simp add: sorted_map sorted_wrt_iff_nth_less frac_le)

lemma fuseResults_semantic_list:
  assumes "distinct (map getDocumentId xs)" and "0 \<le> ws"
  shows "fuseResults [] xs wk ws
           = map (\<lambda>p. \<lparr>content = content (snd p), pageContent = Undefined,
                        metadata = metadata (snd p),
                        score = ws / (60 + real (fst p) + 1),
                        searchType = Some Hybrid,
                        keywordRank = None, keywordScore = None,
                        semanticRank = Some (fst p + 1),
                        semanticScore = Some (score (snd p))\<rparr>) (enumerate 0 xs)"
proof -
  let ?mk = "\<lambda>p. (getDocumentId (snd p), semanticEntry (ws / (60 + real (fst p) + 1)) (fst p) (snd p))"
  have m: "fusedMap [] xs wk ws = map ?mk (enumerate 0 xs)"
    using fold_semanticStep_fresh [OF assms(1), of "[]" ws 0] by (simp add: fusedMap_def)
  have "sorted (map (\<lambda>e. - fusedScore e) (map snd (map ?mk (enumerate 0 xs))))"
    using rrf_sorted_weight [OF assms(2), of 0 xs] by (simp add: comp_def semanticEntry_def)
  then have s: "sort_key (\<lambda>e. - fusedScore e) (map snd (map ?mk (enumerate 0 xs)))
             = map snd (map ?mk (enumerate 0 xs))"
    by (rule sort_key_id_if_sorted)
  have "fuseResults [] xs wk ws = map (\<lambda>p. fusedOutput (snd (?mk p))) (enumerate 0 xs)"
    unfolding fuseResults_fusedMap m s by (simp add: comp_def)
  then show ?thesis
    by (simp add: fusedOutput_def semanticEntry_def)
qed

lemma fuseResults_keyword_list:
  assumes "distinct (map getDocumentId xs)" and "0 \<le> wk"
  shows "fuseResults xs [] wk ws
           = map (\<lambda>p. \<lparr>content = content (snd p), pageContent = Undefined,
                        metadata = metadata (snd p),
                        score = wk / (60 + real (fst p) + 1),
                        searchType = Some Hybrid,
                        keywordRank = Some (fst p + 1),
                        keywordScore = Some (score (snd p)),
                        semanticRank = None, semanticScore = None\<rparr>) (enumerate 0 xs)"
proof -
  let ?mk = "\<lambda>p. (getDocumentId (snd p), keywordEntry (wk / (60 + real (fst p) + 1)) (fst p) (snd p))"
  have m: "fusedMap xs [] wk ws = map ?mk (enumerate 0 xs)"
    using fold_keywordStep_fresh [OF assms(1), of "[]" wk 0] by (simp add: fusedMap_def)
  have "sorted (map (\<lambda>e. - fusedScore e) (map snd (map ?mk (enumerate 0 xs))))"
    using rrf_sorted_weight [OF assms(2), of 0 xs] by (simp add: comp_def keywordEntry_def)
  then have s: "sort_key (\<lambda>e. - fusedScore e) (map snd (map ?mk (enumerate 0 xs)))
             = map snd (map ?mk (enumerate 0 xs))"
    by (rule sort_key_id_if_sorted)
  have "fuseResults xs [] wk ws = map (\<lambda>p. fusedOutput (snd (?mk p))) (enumerate 0 xs)"
    unfolding fuseResults_fusedMap m s by (simp add: comp_def)
  then show ?thesis
    by (simp add: fusedOutput_def keywordEntry_def)
qed

lemma enumerate_map_snd:
  "enumerate n (map g xs) = map (\<lambda>p. (fst p, g (snd p))) (enumerate n xs)"
  by (induction xs arbitrary: n) simp_all

lemma semanticSearch_ids:
  "vectorStore this query k = Inr rs \<Longrightarrow>
   map getDocumentId (semanticSearch this query k) = map getDocumentId rs"
  by (simp add: semanticSearch_def getDocumentId_def comp_def)

lemma retrieverSemanticSearch_store:
  "retrieverSemanticSearch (this\<lparr>ensembleRetriever := w\<rparr>) query k = retrieverSemanticSearch this query k"
  "retrieverSemanticSearch (this\<lparr>bm25Retriever := b\<rparr>) query k = retrieverSemanticSearch this query k"
  by (simp_all add: retrieverSemanticSearch_def)

lemma retrieverHybridSearch_fallback:
  "vectorRetriever that query = Inl e \<Longrightarrow>
   fst (retrieverHybridSearch lib that query options)
     = map (\<lambda>r. r\<lparr>searchType := Some Hybrid\<rparr>)
         (retrieverSemanticSearch that query (maxResults options))"
  by (simp add: retrieverHybridSearch_def semanticFallback_def Let_def
        retrieverSemanticSearch_store split: option.splits sum.splits)

lemma scenarioRetrieverEngine_built:
  "retrieverBuildIndex asciiLibrary (newRetrieverEngine failingStore failingRetriever)
     scenarioCorpus failingStore failingRetriever = Inr scenarioRetrieverEngine"
  by (simp add: retrieverBuildIndex_def newRetrieverEngine_def scenarioRetrieverEngine_def
        langchainDocument_def keyword_eval)

lemma semanticSearch_empty_iff:
  "(semanticSearch this query k = [])
     = (case vectorStore this query k of Inl e \<Rightarrow> True | Inr rs \<Rightarrow> rs = [])"
  by (simp add: semanticSearch_def split: sum.splits)

lemma retrieverSemanticSearch_empty_iff:
  "(retrieverSemanticSearch this query k = [])
     = (case similaritySearch this query k of Inl e \<Rightarrow> True | Inr rs \<Rightarrow> rs = [])"
  by (simp add: retrieverSemanticSearch_def split: sum.splits)

lemmas hybrid_eval =
  hybridSearch_def semanticSearch_def defaultOptions_def failingStore_def oneChunkStore_def
  newEngine_def

section \<open>Evaluation of the classifier\<close>

lemmas classifier_eval =
  classifyQuestion_def isLikelyGreeting_def isPersonalQuestion_def greetingPatterns_def
  personalPatterns_def wholeMatch_def regexTest_def gapMatch.simps ciPrefix_def canonical_def
  isLineTerminator_def stringIncludes_def trim_def isSpace_def str_def asciiLibrary_def
  asciiUpper_def Let_def

lemma no_greeting: "\<not> isLikelyGreeting (str ''Is revenue up?'')"
  by (simp add: classifier_eval cong: conj_cong)

lemma no_personal_question: "\<not> isPersonalQuestion (str ''Is revenue up?'')"
  by (simp add: classifier_eval cong: conj_cong)

lemma maybe_unrecognised:
  "\<not> stringIncludes (toUpperCase asciiLibrary (trim (str '' maybe ''))) (str ''DIRECT'')"
  "\<not> stringIncludes (toUpperCase asciiLibrary (trim (str '' maybe ''))) (str ''SEARCH'')"
  by (simp_all add: classifier_eval cong: conj_cong)

section \<open>Claims about the fusion\<close>

text \<open>
  Claim C1, as the code has it. Every entry of the output of \<^verbatim>\<open>fuseResults\<close> has as
  score the sum, over the ranks \<open>i + 1\<close> at which its chunk stands in the keyword list, of
  \<open>keywordWeight / (60 + rank)\<close>, plus the same sum over the semantic list with
  \<open>semanticWeight\<close>; a list that does not hold the chunk adds nothing. The output holds
  each identity of the two lists once. In the scenario of the specification (keyword list
  \<open>docA, docB\<close>, semantic list \<open>docB, docA\<close>, weights \<open>0.3\<close> and \<open>0.7\<close>) the chunk
  \<open>(docB, 0)\<close> comes first with the score \<open>0.3/62 + 0.7/61\<close>, its keyword rank being 2,
  and \<open>(docA, 0)\<close> second with \<open>0.3/61 + 0.7/62\<close>.
\<close>

theorem fuseResults_rrf_sum:
  "(\<forall>r \<in> set (fuseResults kw sem wk ws).
      score r =
        (\<Sum>i | i < length kw \<and> getDocumentId (kw ! i) = getDocumentId r. wk / (60 + real (i + 1)))
      + (\<Sum>i | i < length sem \<and> getDocumentId (sem ! i) = getDocumentId r. ws / (60 + real (i + 1))))
   \<and> getDocumentId ` set (fuseResults kw sem wk ws)
       = getDocumentId ` set kw \<union> getDocumentId ` set sem
   \<and> distinct (map getDocumentId (fuseResults kw sem wk ws))
   \<and> map (\<lambda>r. (getDocumentId r, score r))
         (fuseResults scenarioKeyword scenarioSemantic (3/10) (7/10))
       = [(str ''docB_0'', (3/10) / 62 + (7/10) / 61),
          (str ''docA_0'', (3/10) / 61 + (7/10) / 62)]"
proof (intro conjI ballI)
  fix r assume "r \<in> set (fuseResults kw sem wk ws)"
  then show "score r =
        (\<Sum>i | i < length kw \<and> getDocumentId (kw ! i) = getDocumentId r. wk / (60 + real (i + 1)))
      + (\<Sum>i | i < length sem \<and> getDocumentId (sem ! i) = getDocumentId r. ws / (60 + real (i + 1)))"
    by (rule fuseResults_score_sets)
next
  show "getDocumentId ` set (fuseResults kw sem wk ws)
       = getDocumentId ` set kw \<union> getDocumentId ` set sem"
    by (rule fuseResults_ids)
next
  show "distinct (map getDocumentId (fuseResults kw sem wk ws))"
    by (rule fuseResults_distinct)
next
  show "map (\<lambda>r. (getDocumentId r, score r))
         (fuseResults scenarioKeyword scenarioSemantic (3/10) (7/10))
       = [(str ''docB_0'', (3/10) / 62 + (7/10) / 61),
          (str ''docA_0'', (3/10) / 61 + (7/10) / 62)]"
    by (simp add: fusion_eval)
qed

text \<open>
  The theorem at the scenario: the first entry of the output is an entry of it, its
  identity is \<^verbatim>\<open>docB_0\<close>, and its score is the two sums of the theorem.
\<close>

theorem fuseResults_rrf_sum_witness:
  "hd (fuseResults scenarioKeyword scenarioSemantic (3/10) (7/10))
     \<in> set (fuseResults scenarioKeyword scenarioSemantic (3/10) (7/10))
   \<and> getDocumentId (hd (fuseResults scenarioKeyword scenarioSemantic (3/10) (7/10))) = str ''docB_0''
   \<and> score (hd (fuseResults scenarioKeyword scenarioSemantic (3/10) (7/10)))
     = (\<Sum>i | i < length scenarioKeyword \<and> getDocumentId (scenarioKeyword ! i) = str ''docB_0''.
          (3/10) / (60 + real (i + 1)))
     + (\<Sum>i | i < length scenarioSemantic \<and> getDocumentId (scenarioSemantic ! i) = str ''docB_0''.
          (7/10) / (60 + real (i + 1)))"
proof -
  let ?out = "fuseResults scenarioKeyword scenarioSemantic (3/10) (7/10)"
  note inst = fuseResults_rrf_sum [of scenarioKeyword scenarioSemantic "3/10" "7/10"]
  have ev: "map getDocumentId ?out = [str ''docB_0'', str ''docA_0'']"
    by (simp add: fusion_eval)
  then have mem: "hd ?out \<in> set ?out" and d: "getDocumentId (hd ?out) = str ''docB_0''"
    by (cases ?out; auto)+
  from inst mem have "score (hd ?out)
     = (\<Sum>i | i < length scenarioKeyword \<and> getDocumentId (scenarioKeyword ! i) = getDocumentId (hd ?out).
          (3/10) / (60 + real (i + 1)))
     + (\<Sum>i | i < length scenarioSemantic \<and> getDocumentId (scenarioSemantic ! i) = getDocumentId (hd ?out).
          (7/10) / (60 + real (i + 1)))"
    by blast
  with mem d show ?thesis
    by simp
qed

text \<open>
  The scenario as the specification words it: no entry of the output is \<open>(docB, 0)\<close> with
  the score \<open>0.3/61 + 0.7/61\<close>.
\<close>

theorem fuseResults_scenario_docB_score:
  "(str ''docB_0'', (3/10) / 61 + (7/10) / 61)
     \<notin> set (map (\<lambda>r. (getDocumentId r, score r))
         (fuseResults scenarioKeyword scenarioSemantic (3/10) (7/10)))"
  by (simp add: fusion_eval)

text \<open>
  Claim C2, as the code has it. A chunk that stands at two ranks \<open>i + 1\<close> and \<open>j + 1\<close> of
  one input list, and at no other rank of that list, receives the contribution of both
  ranks: the later duplicate adds \<open>weight / (60 + j + 1)\<close> to the fused score. This holds
  for the keyword list and for the semantic list.
\<close>

theorem fuseResults_duplicate_adds:
  assumes "r \<in> set (fuseResults kw sem wk ws)" and "getDocumentId r = d" and "i \<noteq> j"
  shows "({k. k < length kw \<and> getDocumentId (kw ! k) = d} = {i, j} \<longrightarrow>
           score r = wk / (60 + real (i + 1)) + wk / (60 + real (j + 1))
             + (\<Sum>k | k < length sem \<and> getDocumentId (sem ! k) = d. ws / (60 + real (k + 1))))
       \<and> ({k. k < length sem \<and> getDocumentId (sem ! k) = d} = {i, j} \<longrightarrow>
           score r = (\<Sum>k | k < length kw \<and> getDocumentId (kw ! k) = d. wk / (60 + real (k + 1)))
             + (ws / (60 + real (i + 1)) + ws / (60 + real (j + 1))))"
  using fuseResults_score_sets [OF assms(1)] assms(2,3) by simp

text \<open>
  The theorem at the keyword list \<open>docA, docA\<close> and an empty semantic list, with weight 1:
  the only entry has the score \<open>1/61 + 1/62\<close>.
\<close>

theorem fuseResults_duplicate_adds_witness:
  "hd (fuseResults [resultOf ''docA'' 0, resultOf ''docA'' 0] [] 1 1)
     \<in> set (fuseResults [resultOf ''docA'' 0, resultOf ''docA'' 0] [] 1 1)
   \<and> score (hd (fuseResults [resultOf ''docA'' 0, resultOf ''docA'' 0] [] 1 1)) = 1 / 61 + 1 / 62"
proof -
  let ?kw = "[resultOf ''docA'' 0, resultOf ''docA'' 0]"
  let ?out = "fuseResults ?kw [] 1 1"
  have ev: "map getDocumentId ?out = [str ''docA_0'']"
    by (simp add: fusion_eval)
  then have mem: "hd ?out \<in> set ?out" and d: "getDocumentId (hd ?out) = str ''docA_0''"
    by (cases ?out; auto)+
  have occ: "{k. k < length ?kw \<and> getDocumentId (?kw ! k) = str ''docA_0''} = {0, 1}"
    by (auto simp: less_Suc_eq nth_Cons' getDocumentId_def resultOf_def str_def decimal.simps)
  have "score (hd ?out) = 1 / (60 + real (0 + 1)) + 1 / (60 + real (1 + 1))
      + (\<Sum>k | k < length ([] :: searchResult list) \<and> getDocumentId (([] :: searchResult list) ! k) = str ''docA_0''.
            1 / (60 + real (k + 1)))"
    using fuseResults_duplicate_adds [OF mem d, where i = 0 and j = 1] occ by simp
  then show ?thesis
    using mem by simp
qed

text \<open>
  The later duplicate is counted: the chunk \<open>(docA, 0)\<close>, twice in the keyword list, gets
  \<open>1/61 + 1/62\<close> and not the \<open>1/61\<close> of its first rank.
\<close>

theorem fuseResults_duplicate_double_counts:
  "map (\<lambda>r. (getDocumentId r, score r))
     (fuseResults [resultOf ''docA'' 0, resultOf ''docA'' 0] [] 1 1)
     = [(str ''docA_0'', 1 / 61 + 1 / 62)]
   \<and> (1 / 61 + 1 / 62 :: real) \<noteq> 1 / 61"
  by (simp add: fusion_eval)

text \<open>
  Claim C7, as the code has it. A single list in which no chunk stands twice, fused with
  weight 1 against an empty second list, comes back in its own order, with the content
  and the metadata of its results, and the score of rank \<open>i + 1\<close> is \<open>1 / (60 + i + 1)\<close>.
\<close>

theorem fuseResults_single_list_order:
  assumes "distinct (map getDocumentId xs)"
  shows "map (\<lambda>r. (content r, metadata r)) (fuseResults xs [] 1 ws)
           = map (\<lambda>r. (content r, metadata r)) xs
       \<and> map score (fuseResults xs [] 1 ws) = map (\<lambda>i. 1 / (60 + real (i + 1))) [0..<length xs]"
proof -
  let ?mk = "\<lambda>p. (getDocumentId (snd p), keywordEntry (1 / (60 + real (fst p) + 1)) (fst p) (snd p))"
  have m: "fusedMap xs [] 1 ws = map ?mk (enumerate 0 xs)"
    using fold_keywordStep_fresh [OF assms, of "[]" 1 0] by (simp add: fusedMap_def)
  have "sorted (map (\<lambda>e. - fusedScore e) (map snd (map ?mk (enumerate 0 xs))))"
    using rrf_sorted [of 0 xs] by (simp add: comp_def keywordEntry_def)
  then have s: "sort_key (\<lambda>e. - fusedScore e) (map snd (map ?mk (enumerate 0 xs)))
             = map snd (map ?mk (enumerate 0 xs))"
    by (rule sort_key_id_if_sorted)
  have out: "fuseResults xs [] 1 ws = map (\<lambda>p. fusedOutput (snd (?mk p))) (enumerate 0 xs)"
    unfolding fuseResults_fusedMap m s by (simp add: comp_def)
  have "map (\<lambda>r. (content r, metadata r)) (fuseResults xs [] 1 ws)
           = map (\<lambda>p. (content (snd p), metadata (snd p))) (enumerate 0 xs)"
    by (simp add: out fusedOutput_def keywordEntry_def comp_def)
  then have a: "map (\<lambda>r. (content r, metadata r)) (fuseResults xs [] 1 ws)
           = map (\<lambda>r. (content r, metadata r)) xs"
    by (simp only: map_snd_enumerate' [of "\<lambda>r. (content r, metadata r)"])
  have "map score (fuseResults xs [] 1 ws)
           = map (\<lambda>p. 1 / (60 + real (fst p + 1))) (enumerate 0 xs)"
    by (simp add: out fusedOutput_def keywordEntry_def comp_def add.commute add.left_commute)
  then have b: "map score (fuseResults xs [] 1 ws)
           = map (\<lambda>i. 1 / (60 + real (i + 1))) [0..<length xs]"
    by (simp only: map_fst_enumerate' [of "\<lambda>i. 1 / (60 + real (i + 1))"]) simp
  show ?thesis
    using a b by simp
qed

text \<open>The theorem at the list \<open>docA, docB\<close>.\<close>

theorem fuseResults_single_list_order_witness:
  "distinct (map getDocumentId [resultOf ''docA'' 0, resultOf ''docB'' 0])
   \<and> map metadata (fuseResults [resultOf ''docA'' 0, resultOf ''docB'' 0] [] 1 (7/10))
       = map metadata [resultOf ''docA'' 0, resultOf ''docB'' 0]
   \<and> map score (fuseResults [resultOf ''docA'' 0, resultOf ''docB'' 0] [] 1 (7/10))
       = [1 / 61, 1 / 62]"
proof -
  let ?xs = "[resultOf ''docA'' 0, resultOf ''docB'' 0]"
  have d: "distinct (map getDocumentId ?xs)"
    by (simp add: getDocumentId_def resultOf_def str_def decimal.simps)
  from fuseResults_single_list_order [OF d, of "7/10"]
  have a: "map (\<lambda>r. (content r, metadata r)) (fuseResults ?xs [] 1 (7/10))
           = map (\<lambda>r. (content r, metadata r)) ?xs"
    and b: "map score (fuseResults ?xs [] 1 (7/10)) = map (\<lambda>i. 1 / (60 + real (i + 1))) [0..<length ?xs]"
    by blast+
  have "map snd (map (\<lambda>r. (content r, metadata r)) (fuseResults ?xs [] 1 (7/10)))
        = map snd (map (\<lambda>r. (content r, metadata r)) ?xs)"
    by (simp only: a)
  then have a': "map metadata (fuseResults ?xs [] 1 (7/10)) = map metadata ?xs"
    by (simp add: comp_def)
  have "[0..<length ?xs] = [0, 1]"
    by (simp add: upt_rec)
  with b have "map score (fuseResults ?xs [] 1 (7/10)) = [1 / 61, 1 / 62]"
    by simp
  with d a' show ?thesis
    by blast
qed

text \<open>
  With a chunk that stands twice the order is not kept: of the list \<open>A, B, B\<close> the fusion
  returns \<open>B\<close> before \<open>A\<close>, the two ranks of \<open>B\<close> adding up to more than the first rank.
\<close>

theorem fuseResults_single_list_reorders:
  "map getDocumentId
     (fuseResults [resultOf ''A'' 0, resultOf ''B'' 0, resultOf ''B'' 0] [] 1 (7/10))
     = [str ''B_0'', str ''A_0'']"
  by (simp add: fusion_eval)

text \<open>
  Claim C10. A result with no metadata, or whose metadata has neither \<^verbatim>\<open>source\<close> nor
  \<^verbatim>\<open>chunkIndex\<close>, has the identity \<^verbatim>\<open>unknown_0\<close>. When a list holds such a result, the
  fused output has exactly one entry of that identity, and its score is the sum of the
  contributions of every position of either list whose result has that identity, so of
  every result without metadata. When all the results are such, the output is that one
  entry and its score is the sum over all the positions of both lists.
\<close>

theorem getDocumentId_unknown_merges:
  "(lacksIdentity a \<longrightarrow> getDocumentId a = str ''unknown_0'')
   \<and> ((\<exists>x \<in> set kw \<union> set sem. lacksIdentity x) \<longrightarrow>
        length (filter (\<lambda>r. getDocumentId r = str ''unknown_0'') (fuseResults kw sem wk ws)) = 1)
   \<and> (\<forall>r \<in> set (fuseResults kw sem wk ws). getDocumentId r = str ''unknown_0'' \<longrightarrow>
        score r =
          (\<Sum>i | i < length kw \<and> getDocumentId (kw ! i) = str ''unknown_0''. wk / (60 + real (i + 1)))
        + (\<Sum>i | i < length sem \<and> getDocumentId (sem ! i) = str ''unknown_0''. ws / (60 + real (i + 1))))
   \<and> ((\<forall>x \<in> set kw \<union> set sem. lacksIdentity x) \<and> kw @ sem \<noteq> [] \<longrightarrow>
        (\<exists>r. fuseResults kw sem wk ws = [r] \<and> getDocumentId r = str ''unknown_0''
           \<and> score r = (\<Sum>i<length kw. wk / (60 + real (i + 1)))
                     + (\<Sum>i<length sem. ws / (60 + real (i + 1)))))"
proof (intro conjI impI ballI)
  assume "lacksIdentity a"
  then show "getDocumentId a = str ''unknown_0''"
    by (rule getDocumentId_lacksIdentity)
next
  assume "\<exists>x \<in> set kw \<union> set sem. lacksIdentity x"
  then have "str ''unknown_0'' \<in> getDocumentId ` set kw \<union> getDocumentId ` set sem"
    using getDocumentId_lacksIdentity by (metis UnE UnI1 UnI2 image_eqI)
  then show "length (filter (\<lambda>r. getDocumentId r = str ''unknown_0'') (fuseResults kw sem wk ws)) = 1"
    by (simp only: fuseResults_one_entry if_True)
next
  fix r assume "r \<in> set (fuseResults kw sem wk ws)" and "getDocumentId r = str ''unknown_0''"
  then show "score r =
          (\<Sum>i | i < length kw \<and> getDocumentId (kw ! i) = str ''unknown_0''. wk / (60 + real (i + 1)))
        + (\<Sum>i | i < length sem \<and> getDocumentId (sem ! i) = str ''unknown_0''. ws / (60 + real (i + 1)))"
    using fuseResults_score_sets [of r kw sem wk ws] by simp
next
  assume all: "(\<forall>x \<in> set kw \<union> set sem. lacksIdentity x) \<and> kw @ sem \<noteq> []"
  let ?u = "str ''unknown_0''"
  let ?out = "fuseResults kw sem wk ws"
  have ids: "\<And>x. x \<in> set kw \<union> set sem \<Longrightarrow> getDocumentId x = ?u"
    using all getDocumentId_lacksIdentity by blast
  have "getDocumentId ` set kw \<union> getDocumentId ` set sem = {?u}"
  proof -
    from all obtain x where "x \<in> set kw \<union> set sem"
      by (cases kw; cases sem) auto
    with ids show ?thesis by (auto simp: image_iff)
  qed
  then have set_ids: "set (map getDocumentId ?out) = {?u}"
    using fuseResults_ids [of kw sem wk ws] by simp
  have "distinct (map getDocumentId ?out)"
    by (rule fuseResults_distinct)
  with set_ids have "length (map getDocumentId ?out) = 1"
    by (metis One_nat_def card.empty card_insert_disjoint distinct_card empty_iff finite.emptyI)
  then obtain r where out: "?out = [r]"
    by (cases ?out) auto
  with set_ids have u: "getDocumentId r = ?u"
    by simp
  have kwall: "{i. i < length kw \<and> getDocumentId (kw ! i) = ?u} = {..<length kw}"
    using ids by auto
  have semall: "{i. i < length sem \<and> getDocumentId (sem ! i) = ?u} = {..<length sem}"
    using ids by auto
  have "score r = (\<Sum>i<length kw. wk / (60 + real (i + 1))) + (\<Sum>i<length sem. ws / (60 + real (i + 1)))"
    using fuseResults_score_sets [of r kw sem wk ws] out u kwall semall by simp
  with out u show "\<exists>r. ?out = [r] \<and> getDocumentId r = ?u
           \<and> score r = (\<Sum>i<length kw. wk / (60 + real (i + 1)))
                     + (\<Sum>i<length sem. ws / (60 + real (i + 1)))"
    by blast
qed

text \<open>
  The theorem at two results without metadata, one in each list, with the weights
  \<open>0.3\<close> and \<open>0.7\<close>: one entry, \<^verbatim>\<open>unknown_0\<close>, with the score \<open>0.3/61 + 0.7/61\<close>.
\<close>

theorem getDocumentId_unknown_merges_witness:
  "lacksIdentity \<lparr>content = Str (str ''a''), pageContent = Undefined, metadata = None,
                  score = 1, searchType = Some Keyword\<rparr>
   \<and> map (\<lambda>r. (getDocumentId r, score r))
       (fuseResults
          [\<lparr>content = Str (str ''a''), pageContent = Undefined, metadata = None,
            score = 1, searchType = Some Keyword\<rparr>]
          [\<lparr>content = Str (str ''b''), pageContent = Undefined,
            metadata = Some \<lparr>source = None, chunkIndex = None, fileType = None, processedAt = None\<rparr>,
            score = 1, searchType = Some Semantic\<rparr>] (3/10) (7/10))
     = [(str ''unknown_0'', (3/10) / 61 + (7/10) / 61)]"
proof -
  let ?a = "\<lparr>content = Str (str ''a''), pageContent = Undefined, metadata = None,
            score = 1, searchType = Some Keyword\<rparr>"
  let ?b = "\<lparr>content = Str (str ''b''), pageContent = Undefined,
            metadata = Some \<lparr>source = None, chunkIndex = None, fileType = None, processedAt = None\<rparr>,
            score = 1, searchType = Some Semantic\<rparr>"
  have a: "lacksIdentity ?a" and b: "lacksIdentity ?b"
    by (simp_all add: lacksIdentity_def)
  then have hyp: "(\<forall>x \<in> set [?a] \<union> set [?b]. lacksIdentity x) \<and> [?a] @ [?b] \<noteq> []"
    by simp
  from getDocumentId_unknown_merges [of ?a "[?a]" "[?b]" "3/10" "7/10"] hyp
  obtain r where "fuseResults [?a] [?b] (3/10) (7/10) = [r]"
    and "getDocumentId r = str ''unknown_0''"
    and "score r = (\<Sum>i<length [?a]. (3/10) / (60 + real (i + 1)))
                 + (\<Sum>i<length [?b]. (7/10) / (60 + real (i + 1)))"
    by blast
  then have "map (\<lambda>r. (getDocumentId r, score r)) (fuseResults [?a] [?b] (3/10) (7/10))
     = [(str ''unknown_0'', (3/10) / 61 + (7/10) / 61)]"
    by simp
  with a show ?thesis
    by blast
qed

section \<open>Claim about the grouping\<close>

text \<open>
  Claim C8. \<^verbatim>\<open>extractSources\<close> returns groups exactly when every result has a metadata
  object and a content that is a string or falsy (otherwise reading the metadata, or the
  logging of the content, throws). The groups then stand in the order in which their
  sources are first seen in the input, a source being \<^verbatim>\<open>metadata.source || 'Unknown'\<close>; the
  chunks of a group are those of the results of its source, sorted ascending by chunk
  index whatever the order of the input; and the file type and the processing timestamp of
  a group are the \<^verbatim>\<open>fileType\<close> (or \<^verbatim>\<open>unknown\<close>) and the \<^verbatim>\<open>processedAt\<close> of the metadata of
  the first result of its source.
\<close>

theorem extractSources_groups:
  "((\<exists>gs. extractSources rs = Inr gs) = (\<forall>r \<in> set rs. groupable r))
   \<and> (\<forall>gs. extractSources rs = Inr gs \<longrightarrow>
          map filename gs = firstSeen (map resultSource rs)
        \<and> (\<forall>g \<in> set gs.
              sorted (map chunk_chunkIndex (chunks g))
            \<and> chunks g = sort_key chunk_chunkIndex
                            (map resultChunk (filter (\<lambda>r. resultSource r = filename g) rs))
            \<and> (\<exists>r md. find (\<lambda>r. resultSource r = filename g) rs = Some r
                   \<and> metadata r = Some md
                   \<and> group_fileType g
                       = (case fileType md of None \<Rightarrow> str ''unknown''
                          | Some t \<Rightarrow> if t = [] then str ''unknown'' else t)
                   \<and> group_processedAt g = processedAt md)))"
proof (intro conjI allI impI)
  show "(\<exists>gs. extractSources rs = Inr gs) = (\<forall>r \<in> set rs. groupable r)"
  proof
    assume "\<exists>gs. extractSources rs = Inr gs"
    then show "\<forall>r \<in> set rs. groupable r"
      using extractSources_Inr_groupable by blast
  next
    assume "\<forall>r \<in> set rs. groupable r"
    then show "\<exists>gs. extractSources rs = Inr gs"
      by (simp add: extractSources_ok)
  qed
next
  fix gs assume res: "extractSources rs = Inr gs"
  then have ok: "\<forall>r \<in> set rs. groupable r"
    by (rule extractSources_Inr_groupable)
  let ?sorted = "\<lambda>s. (groupFor rs s)\<lparr>chunks := sort_key chunk_chunkIndex (chunks (groupFor rs s))\<rparr>"
  from res have gs: "gs = map ?sorted (firstSeen (map resultSource rs))"
    by (simp add: extractSources_ok [OF ok])
  have names: "map filename gs = map (\<lambda>s. filename (groupFor rs s)) (firstSeen (map resultSource rs))"
    by (simp add: gs comp_def)
  show "map filename gs = firstSeen (map resultSource rs)"
    unfolding names by (rule map_idI) (simp add: filename_groupFor)
  show "\<forall>g \<in> set gs.
              sorted (map chunk_chunkIndex (chunks g))
            \<and> chunks g = sort_key chunk_chunkIndex
                            (map resultChunk (filter (\<lambda>r. resultSource r = filename g) rs))
            \<and> (\<exists>r md. find (\<lambda>r. resultSource r = filename g) rs = Some r
                   \<and> metadata r = Some md
                   \<and> group_fileType g
                       = (case fileType md of None \<Rightarrow> str ''unknown''
                          | Some t \<Rightarrow> if t = [] then str ''unknown'' else t)
                   \<and> group_processedAt g = processedAt md)"
  proof
    fix g assume "g \<in> set gs"
    then obtain s where s: "s \<in> resultSource ` set rs" and g: "g = ?sorted s"
      by (auto simp: gs)
    from groupFor_present [OF s] obtain r
      where r: "find (\<lambda>r. resultSource r = s) rs = Some r"
        and gr: "groupFor rs s
               = (resultGroup r)\<lparr>chunks := map resultChunk (filter (\<lambda>r. resultSource r = s) rs)\<rparr>"
      by blast
    have fn: "filename g = s"
      by (simp add: g filename_groupFor [OF s])
    have "sorted (map chunk_chunkIndex (chunks g))"
      by (simp add: g sorted_sort_key)
    moreover have "chunks g = sort_key chunk_chunkIndex
                            (map resultChunk (filter (\<lambda>r. resultSource r = filename g) rs))"
      by (simp add: fn) (simp add: g gr)
    moreover have "\<exists>r md. find (\<lambda>r. resultSource r = filename g) rs = Some r
                   \<and> metadata r = Some md
                   \<and> group_fileType g
                       = (case fileType md of None \<Rightarrow> str ''unknown''
                          | Some t \<Rightarrow> if t = [] then str ''unknown'' else t)
                   \<and> group_processedAt g = processedAt md"
    proof -
      from r have "r \<in> set rs"
        by (auto simp: find_Some_iff)
      with ok have "groupable r"
        by blast
      then obtain md where md: "metadata r = Some md"
        by (auto simp: groupable_def)
      have "group_fileType g
                = (case fileType md of None \<Rightarrow> str ''unknown''
                   | Some t \<Rightarrow> if t = [] then str ''unknown'' else t)"
        and "group_processedAt g = processedAt md"
        by (simp_all add: g gr resultGroup_def md newGroup_def)
      with r md fn show ?thesis
        by blast
    qed
    ultimately show "sorted (map chunk_chunkIndex (chunks g))
            \<and> chunks g = sort_key chunk_chunkIndex
                            (map resultChunk (filter (\<lambda>r. resultSource r = filename g) rs))
            \<and> (\<exists>r md. find (\<lambda>r. resultSource r = filename g) rs = Some r
                   \<and> metadata r = Some md
                   \<and> group_fileType g
                       = (case fileType md of None \<Rightarrow> str ''unknown''
                          | Some t \<Rightarrow> if t = [] then str ''unknown'' else t)
                   \<and> group_processedAt g = processedAt md)"
      by blast
  qed
qed

text \<open>
  The theorem at three results: chunk 1 of \<open>docA\<close>, from a PDF file; chunk 0 of \<open>docB\<close>,
  with no file type, no timestamp and no content; chunk 0 of \<open>docA\<close>, whose metadata
  names a text file. There are two groups, \<open>docA\<close> then \<open>docB\<close>; the chunks of \<open>docA\<close>
  are in ascending order, and its file type and timestamp are those of the result seen
  first.
\<close>

theorem extractSources_groups_witness:
  "extractSources
     [sourcedResult ''docA'' 1 ''pdf'' ''2024-01-01'' ''second'' (1/2),
      resultOf ''docB'' 0,
      sourcedResult ''docA'' 0 ''txt'' ''2024-02-02'' ''first'' (1/4)]
   = Inr
     [\<lparr>filename = str ''docA'',
       chunks = [\<lparr>chunk_chunkIndex = 1, chunk_score = 1/4, chunk_content = Str (str ''first'')\<rparr>,
                 \<lparr>chunk_chunkIndex = 2, chunk_score = 1/2, chunk_content = Str (str ''second'')\<rparr>],
       group_fileType = str ''pdf'', group_processedAt = Some (str ''2024-01-01'')\<rparr>,
      \<lparr>filename = str ''docB'',
       chunks = [\<lparr>chunk_chunkIndex = 1, chunk_score = 0, chunk_content = Str []\<rparr>],
       group_fileType = str ''unknown'', group_processedAt = None\<rparr>]
   \<and> (\<exists>gs. extractSources
             [sourcedResult ''docA'' 1 ''pdf'' ''2024-01-01'' ''second'' (1/2),
              resultOf ''docB'' 0,
              sourcedResult ''docA'' 0 ''txt'' ''2024-02-02'' ''first'' (1/4)] = Inr gs
          \<and> map filename gs = [str ''docA'', str ''docB'']
          \<and> list_all (\<lambda>g. sorted (map chunk_chunkIndex (chunks g))) gs)"
proof -
  let ?rs = "[sourcedResult ''docA'' 1 ''pdf'' ''2024-01-01'' ''second'' (1/2),
              resultOf ''docB'' 0,
              sourcedResult ''docA'' 0 ''txt'' ''2024-02-02'' ''first'' (1/4)]"
  note inst = extractSources_groups [of ?rs]
  have "\<forall>r \<in> set ?rs. groupable r"
    by (simp add: groupable_def shownContent_def resultOf_def sourcedResult_def str_def)
  with inst obtain gs where gs: "extractSources ?rs = Inr gs"
    by blast
  with inst have names: "map filename gs = firstSeen (map resultSource ?rs)"
    and sorted: "\<forall>g \<in> set gs. sorted (map chunk_chunkIndex (chunks g))"
    by blast+
  have "firstSeen (map resultSource ?rs) = [str ''docA'', str ''docB'']"
    by (simp add: firstSeen_def resultSource_def resultOf_def sourcedResult_def str_def)
  with names have n: "map filename gs = [str ''docA'', str ''docB'']"
    by simp
  have ev: "extractSources ?rs = Inr
     [\<lparr>filename = str ''docA'',
       chunks = [\<lparr>chunk_chunkIndex = 1, chunk_score = 1/4, chunk_content = Str (str ''first'')\<rparr>,
                 \<lparr>chunk_chunkIndex = 2, chunk_score = 1/2, chunk_content = Str (str ''second'')\<rparr>],
       group_fileType = str ''pdf'', group_processedAt = Some (str ''2024-01-01'')\<rparr>,
      \<lparr>filename = str ''docB'',
       chunks = [\<lparr>chunk_chunkIndex = 1, chunk_score = 0, chunk_content = Str []\<rparr>],
       group_fileType = str ''unknown'', group_processedAt = None\<rparr>]"
    by (simp add: extractSources_def extractStep_def sourceName_def chunkIndexOr0_def
          displayContent_def js_or_def newGroup_def resultOf_def sourcedResult_def str_def Let_def)
  from gs n sorted have "\<exists>gs. extractSources ?rs = Inr gs
          \<and> map filename gs = [str ''docA'', str ''docB'']
          \<and> list_all (\<lambda>g. sorted (map chunk_chunkIndex (chunks g))) gs"
    by (auto simp: list_all_iff)
  with ev show ?thesis
    by blast
qed

section \<open>Claims about the keyword search\<close>

text \<open>
  Claim C6. On an indexed engine and for \<open>k \<ge> 0\<close>, \<^verbatim>\<open>keywordSearch\<close> returns one result
  for each document of a list \<open>is\<close>: the result of document \<open>i\<close> has the text and the
  metadata of the \<open>i\<close>-th document of the corpus, the tag \<^verbatim>\<open>keyword\<close>, and as score the
  summed TF-IDF of the document over the terms of the query. Every document of \<open>is\<close> has
  a score strictly above 0; \<open>is\<close> is ordered by decreasing score, documents of equal score
  in the order of the corpus; the documents of positive score left out come after all of
  \<open>is\<close> in that order; \<open>is\<close> has \<open>k\<close> documents, or all the documents of positive score when
  they are fewer. A query with no term after preprocessing has the empty result.
\<close>

theorem keywordSearch_ranking:
  assumes "isIndexed this" and "0 \<le> k"
  shows "\<exists>is. keywordSearch lib this query k
                = Inr (map (\<lambda>i. \<lparr>content = documentText (documents this ! i),
                                   pageContent = Undefined,
                                   metadata = metadata (documents this ! i),
                                   score = summedScore lib this query i,
                                   searchType = Some Keyword\<rparr>) is)
           \<and> (\<forall>i \<in> set is. i < length (documents this) \<and> 0 < summedScore lib this query i)
           \<and> sorted_wrt (rankedBefore (summedScore lib this query)) is
           \<and> (\<forall>j. j < length (documents this) \<and> 0 < summedScore lib this query j \<and> j \<notin> set is
                  \<longrightarrow> (\<forall>i \<in> set is. rankedBefore (summedScore lib this query) i j))
           \<and> length is = min (nat k) (card {j. j < length (documents this) \<and> 0 < summedScore lib this query j})
           \<and> (termsOfQuery lib query = [] \<longrightarrow> is = [])"
proof -
  let ?sc = "summedScore lib this query"
  let ?all = "rankedDocuments lib this query"
  let ?is = "take (nat k) ?all"
  have "keywordSearch lib this query k = Inr (map (\<lambda>i. keywordHit this i (?sc i)) ?is)"
    using assms by (simp add: keywordSearch_indexed slice0_def)
  then have res: "keywordSearch lib this query k
                = Inr (map (\<lambda>i. \<lparr>content = documentText (documents this ! i),
                                   pageContent = Undefined,
                                   metadata = metadata (documents this ! i),
                                   score = ?sc i,
                                   searchType = Some Keyword\<rparr>) ?is)"
    by (simp only: keywordHit_fields)
  have pos: "\<forall>i \<in> set ?is. i < length (documents this) \<and> 0 < ?sc i"
    using set_rankedDocuments [of lib this query] by (auto dest: in_set_takeD)
  have ord: "sorted_wrt (rankedBefore ?sc) ?is"
    using sorted_rankedDocuments [of lib this query] by (rule sorted_wrt_take)
  have rest: "\<forall>j. j < length (documents this) \<and> 0 < ?sc j \<and> j \<notin> set ?is
                  \<longrightarrow> (\<forall>i \<in> set ?is. rankedBefore ?sc i j)"
  proof (intro allI impI ballI)
    fix j i assume j: "j < length (documents this) \<and> 0 < ?sc j \<and> j \<notin> set ?is"
      and i: "i \<in> set ?is"
    from j have "j \<in> set ?all"
      by (simp add: set_rankedDocuments)
    then have "j \<in> set (take (nat k) ?all) \<union> set (drop (nat k) ?all)"
      by (simp only: set_append [symmetric] append_take_drop_id)
    with j have "j \<in> set (drop (nat k) ?all)"
      by blast
    with sorted_rankedDocuments i show "rankedBefore ?sc i j"
      by (rule sorted_wrt_take_drop)
  qed
  have "length ?all = card (set ?all)"
    by (simp add: distinct_card distinct_rankedDocuments)
  then have len: "length ?is = min (nat k) (card {j. j < length (documents this) \<and> 0 < ?sc j})"
    by (simp add: set_rankedDocuments min.commute)
  have none: "termsOfQuery lib query = [] \<longrightarrow> ?is = []"
    by (simp add: rankedDocuments_def summedScore_no_terms)
  show ?thesis
    apply (rule exI [of _ ?is])
    apply (intro conjI)
         apply (rule res)
        apply (rule pos)
       apply (rule ord)
      apply (rule rest)
     apply (rule len)
    apply (rule none)
    done
qed

text \<open>
  The theorem at the scenario corpus and the query \<^verbatim>\<open>apples\<close> with \<open>k = 5\<close>: the documents
  0 and 2, which both have the term once, in the order of the corpus, each with its own
  text and metadata and the score 1.
\<close>

theorem keywordSearch_ranking_witness:
  "isIndexed scenarioEngine \<and> (0::int) \<le> 5
   \<and> (\<exists>is. keywordSearch asciiLibrary scenarioEngine (Str (str ''apples'')) 5
               = Inr (map (\<lambda>i. \<lparr>content = documentText (documents scenarioEngine ! i),
                                  pageContent = Undefined,
                                  metadata = metadata (documents scenarioEngine ! i),
                                  score = summedScore asciiLibrary scenarioEngine (Str (str ''apples'')) i,
                                  searchType = Some Keyword\<rparr>) is)
          \<and> sorted_wrt (rankedBefore (summedScore asciiLibrary scenarioEngine (Str (str ''apples'')))) is
          \<and> length is = min (nat 5) (card {j. j < length (documents scenarioEngine)
                 \<and> 0 < summedScore asciiLibrary scenarioEngine (Str (str ''apples'')) j}))
   \<and> keywordSearch asciiLibrary scenarioEngine (Str (str ''apples'')) 5
       = Inr [\<lparr>content = Str (str ''apples are red''), pageContent = Undefined,
               metadata = Some \<lparr>source = Some (str ''docA''), chunkIndex = Some 0,
                                fileType = None, processedAt = None\<rparr>,
               score = 1, searchType = Some Keyword\<rparr>,
              \<lparr>content = Str (str ''Green Apples!''), pageContent = Undefined,
               metadata = Some \<lparr>source = Some (str ''docA''), chunkIndex = Some 2,
                                fileType = None, processedAt = None\<rparr>,
               score = 1, searchType = Some Keyword\<rparr>]"
proof -
  have ix: "isIndexed scenarioEngine"
    by (simp add: scenarioEngine_def)
  have ev: "keywordSearch asciiLibrary scenarioEngine (Str (str ''apples'')) 5
       = Inr [\<lparr>content = Str (str ''apples are red''), pageContent = Undefined,
               metadata = Some \<lparr>source = Some (str ''docA''), chunkIndex = Some 0,
                                fileType = None, processedAt = None\<rparr>,
               score = 1, searchType = Some Keyword\<rparr>,
              \<lparr>content = Str (str ''Green Apples!''), pageContent = Undefined,
               metadata = Some \<lparr>source = Some (str ''docA''), chunkIndex = Some 2,
                                fileType = None, processedAt = None\<rparr>,
               score = 1, searchType = Some Keyword\<rparr>]"
    by (simp add: keyword_eval)
  have "\<exists>is. keywordSearch asciiLibrary scenarioEngine (Str (str ''apples'')) 5
               = Inr (map (\<lambda>i. \<lparr>content = documentText (documents scenarioEngine ! i),
                                  pageContent = Undefined,
                                  metadata = metadata (documents scenarioEngine ! i),
                                  score = summedScore asciiLibrary scenarioEngine (Str (str ''apples'')) i,
                                  searchType = Some Keyword\<rparr>) is)
          \<and> sorted_wrt (rankedBefore (summedScore asciiLibrary scenarioEngine (Str (str ''apples'')))) is
          \<and> length is = min (nat 5) (card {j. j < length (documents scenarioEngine)
                 \<and> 0 < summedScore asciiLibrary scenarioEngine (Str (str ''apples'')) j})"
  proof -
    have k: "(0::int) \<le> 5"
      by simp
    from keywordSearch_ranking [OF ix k, of asciiLibrary "Str (str ''apples'')"]
    show ?thesis
      by blast
  qed
  with ix ev show ?thesis
    by simp
qed

text \<open>
  Claim C9. \<^verbatim>\<open>buildIndex\<close> returns, for every corpus, and the engine it returns is indexed;
  \<^verbatim>\<open>preprocessText\<close> never throws; a document whose content is empty, missing or not a
  string is added to the index as the empty text. \<^verbatim>\<open>keywordSearch\<close> on the engine returns,
  for every query and every \<open>k\<close>. Provided that the TF-IDF of the library is 0 for every
  term in a document added as the empty text, such a document has the score 0 for every
  query and is not among the documents returned.
\<close>

theorem emptyContent_tolerated:
  "(\<exists>s. preprocessText lib v = Inr s)
   \<and> (\<exists>e. buildIndex lib this docs = Inr e \<and> isIndexed e \<and> documents e = docs
          \<and> (\<forall>i < length docs. noText (docs ! i) \<longrightarrow>
                preprocessText lib (docContent (docs ! i)) = Inr [] \<and> tfidfDocuments e ! i = [])
          \<and> (\<exists>is. keywordSearch lib e query k
                     = Inr (map (\<lambda>i. keywordHit e i (summedScore lib e query i)) is)
                \<and> (emptyTextScoresZero lib \<longrightarrow>
                      (\<forall>i < length docs. noText (docs ! i) \<longrightarrow>
                         summedScore lib e query i = 0 \<and> i \<notin> set is))))"
proof (intro conjI)
  show "\<exists>s. preprocessText lib v = Inr s"
    by (rule preprocessText_total)
next
  from buildIndex_total [of lib this docs] obtain e
    where e: "buildIndex lib this docs = Inr e" "isIndexed e" "documents e = docs"
      and len: "length (tfidfDocuments e) = length docs"
      and texts: "\<forall>i < length docs. preprocessText lib (docContent (docs ! i)) = Inr (tfidfDocuments e ! i)"
    by blast
  let ?is = "slice0 k (rankedDocuments lib e query)"
  have empty: "\<forall>i < length docs. noText (docs ! i) \<longrightarrow>
                preprocessText lib (docContent (docs ! i)) = Inr [] \<and> tfidfDocuments e ! i = []"
    using texts by (auto dest: preprocessText_noText [of _ lib])
  have res: "keywordSearch lib e query k
                     = Inr (map (\<lambda>i. keywordHit e i (summedScore lib e query i)) ?is)"
    using e(2) by (rule keywordSearch_indexed)
  have zero: "emptyTextScoresZero lib \<longrightarrow>
                      (\<forall>i < length docs. noText (docs ! i) \<longrightarrow>
                         summedScore lib e query i = 0 \<and> i \<notin> set ?is)"
  proof (intro impI allI)
    fix i assume lib: "emptyTextScoresZero lib" and i: "i < length docs" and nt: "noText (docs ! i)"
    from empty i nt have "tfidfDocuments e ! i = []"
      by blast
    with lib i len have "\<And>term. tfidf lib (tfidfDocuments e) term i = 0"
      by (simp add: emptyTextScoresZero_def)
    then have z: "summedScore lib e query i = 0"
      by (simp add: summedScore_def)
    then have "i \<notin> set (rankedDocuments lib e query)"
      by (simp add: set_rankedDocuments)
    then have "i \<notin> set ?is"
      by (auto simp: slice0_def dest: in_set_takeD)
    with z show "summedScore lib e query i = 0 \<and> i \<notin> set ?is"
      by blast
  qed
  from e empty res zero
  show "\<exists>e. buildIndex lib this docs = Inr e \<and> isIndexed e \<and> documents e = docs
          \<and> (\<forall>i < length docs. noText (docs ! i) \<longrightarrow>
                preprocessText lib (docContent (docs ! i)) = Inr [] \<and> tfidfDocuments e ! i = [])
          \<and> (\<exists>is. keywordSearch lib e query k
                     = Inr (map (\<lambda>i. keywordHit e i (summedScore lib e query i)) is)
                \<and> (emptyTextScoresZero lib \<longrightarrow>
                      (\<forall>i < length docs. noText (docs ! i) \<longrightarrow>
                         summedScore lib e query i = 0 \<and> i \<notin> set is)))"
    by blast
qed

text \<open>
  The theorem at the scenario corpus, whose document 3 has no content, with the term
  frequency for the library: the index holds the empty text for it, its score for the
  query \<^verbatim>\<open>apples\<close> is 0, and the search returns the documents 0 and 2.
\<close>

theorem emptyContent_tolerated_witness:
  "emptyTextScoresZero asciiLibrary \<and> noText (scenarioCorpus ! 3)
   \<and> buildIndex asciiLibrary (newEngine failingStore) scenarioCorpus = Inr scenarioEngine
   \<and> tfidfDocuments scenarioEngine ! 3 = []
   \<and> summedScore asciiLibrary scenarioEngine (Str (str ''apples'')) 3 = 0
   \<and> keywordSearch asciiLibrary scenarioEngine (Str (str ''apples'')) 5
       = Inr [keywordHit scenarioEngine 0 1, keywordHit scenarioEngine 2 1]"
proof -
  note inst = emptyContent_tolerated
    [of asciiLibrary Undefined "newEngine failingStore" scenarioCorpus "Str (str ''apples'')" 5]
  have nt: "noText (scenarioCorpus ! 3)"
    by (simp add: noText_def scenarioCorpus_def resultOf_def docContent_def js_or_def)
  have len: "3 < length scenarioCorpus"
    by (simp add: scenarioCorpus_def)
  from inst scenarioEngine_built asciiLibrary_emptyText nt len
  have "tfidfDocuments scenarioEngine ! 3 = []"
    and "summedScore asciiLibrary scenarioEngine (Str (str ''apples'')) 3 = 0"
    by auto
  moreover have "keywordSearch asciiLibrary scenarioEngine (Str (str ''apples'')) 5
       = Inr [keywordHit scenarioEngine 0 1, keywordHit scenarioEngine 2 1]"
    by (simp add: keyword_eval)
  ultimately show ?thesis
    using scenarioEngine_built asciiLibrary_emptyText nt by blast
qed

section \<open>Claims about the searches\<close>

text \<open>
  Claim C3, as the code has it. On an engine that is not indexed, \<^verbatim>\<open>keywordSearch\<close> returns
  the empty list. \<^verbatim>\<open>semanticSearch\<close> does not look at the index: when the call of the vector
  store throws it returns the empty list, and otherwise the results of the store, one for
  one and in their order, with the tag \<^verbatim>\<open>semantic\<close>. \<^verbatim>\<open>hybridSearch\<close> returns the first
  \<^verbatim>\<open>maxResults\<close> of the fusion of the empty keyword list with the semantic results: the empty
  list when the store throws; and, when the results of the store are of distinct chunks and
  the semantic weight is not negative, the result at position \<open>i\<close> has the content and the
  metadata of the \<open>i\<close>-th result of the store, the score
  \<open>semanticWeight / (60 + i + 1)\<close>, the semantic rank \<open>i + 1\<close>, the semantic score of the
  store and no keyword rank. For \<^verbatim>\<open>maxResults\<close> of 1 or more its result is empty exactly when
  that of the semantic search is. The engine built on retrievers does the same: its
  \<^verbatim>\<open>keywordSearch\<close> is empty, its \<^verbatim>\<open>semanticSearch\<close> returns the results of the store, each
  with \<^verbatim>\<open>pageContent || content\<close> as its content and the tag \<^verbatim>\<open>semantic\<close>, and its
  \<^verbatim>\<open>hybridSearch\<close> returns those of \<^verbatim>\<open>semanticSearch(query, maxResults)\<close> with the tag
  \<^verbatim>\<open>hybrid\<close>. None of them throws.
\<close>

theorem unindexed_searches:
  "(\<not> isIndexed this \<longrightarrow>
        keywordSearch lib this query k = Inr []
      \<and> hybridSearch lib this query options
          = Inr (slice0 (maxResults options)
                   (fuseResults [] (semanticSearch this query (semanticResults options))
                      (keywordWeight options) (semanticWeight options)))
      \<and> (1 \<le> maxResults options \<longrightarrow>
           (hybridSearch lib this query options = Inr [])
             = (semanticSearch this query (semanticResults options) = []))
      \<and> (vectorStore this query (semanticResults options) = Inl e \<longrightarrow>
           hybridSearch lib this query options = Inr [])
      \<and> (vectorStore this query (semanticResults options) = Inr rs
           \<and> distinct (map getDocumentId rs) \<and> 0 \<le> semanticWeight options \<longrightarrow>
           hybridSearch lib this query options
             = Inr (slice0 (maxResults options)
                      (map (\<lambda>p. \<lparr>content = content (snd p), pageContent = Undefined,
                                   metadata = metadata (snd p),
                                   score = semanticWeight options / (60 + real (fst p) + 1),
                                   searchType = Some Hybrid,
                                   keywordRank = None, keywordScore = None,
                                   semanticRank = Some (fst p + 1),
                                   semanticScore = Some (score (snd p))\<rparr>)
                         (enumerate 0 rs)))))
   \<and> (vectorStore this query k = Inl e \<longrightarrow> semanticSearch this query k = [])
   \<and> (vectorStore this query k = Inr rs \<longrightarrow>
        semanticSearch this query k
          = map (\<lambda>r. \<lparr>content = content r, pageContent = pageContent r,
                          metadata = metadata r, score = score r,
                          searchType = Some Semantic\<rparr>) rs)
   \<and> (semanticSearch this query k = [])
        = (case vectorStore this query k of Inl e \<Rightarrow> True | Inr rs \<Rightarrow> rs = [])
   \<and> (\<not> retrieverIsIndexed that \<longrightarrow>
        retrieverKeywordSearch lib that query k = ([], that)
      \<and> retrieverHybridSearch lib that query options
          = (map (\<lambda>r. r\<lparr>searchType := Some Hybrid\<rparr>)
               (retrieverSemanticSearch that query (maxResults options)), that)
      \<and> (similaritySearch that query (maxResults options) = Inl e \<longrightarrow>
           fst (retrieverHybridSearch lib that query options) = [])
      \<and> (similaritySearch that query (maxResults options) = Inr rs \<longrightarrow>
           fst (retrieverHybridSearch lib that query options)
             = map (\<lambda>r. \<lparr>content = (if truthy (pageContent r) then pageContent r else content r),
                          pageContent = Undefined, metadata = metadata r, score = score r,
                          searchType = Some Hybrid\<rparr>) rs))
   \<and> (similaritySearch that query k = Inl e \<longrightarrow> retrieverSemanticSearch that query k = [])
   \<and> (similaritySearch that query k = Inr rs \<longrightarrow>
        retrieverSemanticSearch that query k
          = map (\<lambda>r. \<lparr>content = (if truthy (pageContent r) then pageContent r else content r),
                          pageContent = Undefined, metadata = metadata r, score = score r,
                          searchType = Some Semantic\<rparr>) rs)
   \<and> (retrieverSemanticSearch that query k = [])
        = (case similaritySearch that query k of Inl e \<Rightarrow> True | Inr rs \<Rightarrow> rs = [])"
proof -
  let ?sem = "semanticSearch this query (semanticResults options)"
  let ?res = "slice0 (maxResults options)
                (fuseResults [] ?sem (keywordWeight options) (semanticWeight options))"
  have kw: "\<And>k. \<not> isIndexed this \<Longrightarrow> keywordSearch lib this query k = Inr []"
    by (simp add: keywordSearch_def)
  have hy: "\<not> isIndexed this \<Longrightarrow> hybridSearch lib this query options = Inr ?res"
    by (simp add: hybridSearch_def kw)
  have em: "1 \<le> maxResults options \<Longrightarrow> (?res = []) = (?sem = [])"
    by (simp add: slice0_empty_iff fuseResults_empty_iff)
  have thrown: "\<And>k. vectorStore this query k = Inl e \<Longrightarrow> semanticSearch this query k = []"
    by (simp add: semanticSearch_def)
  have sem: "\<And>k. vectorStore this query k = Inr rs \<Longrightarrow>
        semanticSearch this query k
          = map (\<lambda>r. \<lparr>content = content r, pageContent = pageContent r,
                          metadata = metadata r, score = score r,
                          searchType = Some Semantic\<rparr>) rs"
    by (simp add: semanticSearch_def)
  have hy_thrown: "vectorStore this query (semanticResults options) = Inl e \<Longrightarrow> ?res = []"
    by (simp add: thrown fuseResults_empty_iff slice0_def)
  have hy_list: "?res = slice0 (maxResults options)
                      (map (\<lambda>p. \<lparr>content = content (snd p), pageContent = Undefined,
                                   metadata = metadata (snd p),
                                   score = semanticWeight options / (60 + real (fst p) + 1),
                                   searchType = Some Hybrid,
                                   keywordRank = None, keywordScore = None,
                                   semanticRank = Some (fst p + 1),
                                   semanticScore = Some (score (snd p))\<rparr>)
                         (enumerate 0 rs))"
    if store: "vectorStore this query (semanticResults options) = Inr rs"
      and d: "distinct (map getDocumentId rs)" and w: "0 \<le> semanticWeight options"
  proof -
    let ?tag = "\<lambda>r. r\<lparr>searchType := Some Semantic\<rparr>"
    have s: "?sem = map ?tag rs"
      using store by (simp add: semanticSearch_def)
    have "distinct (map getDocumentId ?sem)"
      using d by (simp only: semanticSearch_ids [OF store])
    from fuseResults_semantic_list [OF this w, of "keywordWeight options"]
    have "fuseResults [] ?sem (keywordWeight options) (semanticWeight options)
           = map (\<lambda>p. \<lparr>content = content (snd p), pageContent = Undefined,
                                   metadata = metadata (snd p),
                                   score = semanticWeight options / (60 + real (fst p) + 1),
                                   searchType = Some Hybrid,
                                   keywordRank = None, keywordScore = None,
                                   semanticRank = Some (fst p + 1),
                                   semanticScore = Some (score (snd p))\<rparr>)
               (enumerate 0 (map ?tag rs))"
      by (simp only: s)
    also have "\<dots> = map (\<lambda>p. \<lparr>content = content (snd p), pageContent = Undefined,
                                   metadata = metadata (snd p),
                                   score = semanticWeight options / (60 + real (fst p) + 1),
                                   searchType = Some Hybrid,
                                   keywordRank = None, keywordScore = None,
                                   semanticRank = Some (fst p + 1),
                                   semanticScore = Some (score (snd p))\<rparr>)
                     (enumerate 0 rs)"
      by (simp add: enumerate_map_snd comp_def)
    finally show ?thesis
      by (simp only:)
  qed
  have rkw: "\<not> retrieverIsIndexed that \<Longrightarrow> retrieverKeywordSearch lib that query k = ([], that)"
    by (simp add: retrieverKeywordSearch_def split: option.splits)
  have rhy: "\<not> retrieverIsIndexed that \<Longrightarrow>
        retrieverHybridSearch lib that query options
          = (map (\<lambda>r. r\<lparr>searchType := Some Hybrid\<rparr>)
               (retrieverSemanticSearch that query (maxResults options)), that)"
    by (simp add: retrieverHybridSearch_def semanticFallback_def)
  have rthrown: "\<And>k. similaritySearch that query k = Inl e \<Longrightarrow> retrieverSemanticSearch that query k = []"
    by (simp add: retrieverSemanticSearch_def)
  have rsem: "\<And>k. similaritySearch that query k = Inr rs \<Longrightarrow>
        retrieverSemanticSearch that query k
          = map (\<lambda>r. \<lparr>content = (if truthy (pageContent r) then pageContent r else content r),
                          pageContent = Undefined, metadata = metadata r, score = score r,
                          searchType = Some Semantic\<rparr>) rs"
    by (simp add: retrieverSemanticSearch_def js_or_def)
  have rhy_list: "\<not> retrieverIsIndexed that \<Longrightarrow>
        similaritySearch that query (maxResults options) = Inr rs \<Longrightarrow>
        fst (retrieverHybridSearch lib that query options)
          = map (\<lambda>r. \<lparr>content = (if truthy (pageContent r) then pageContent r else content r),
                          pageContent = Undefined, metadata = metadata r, score = score r,
                          searchType = Some Hybrid\<rparr>) rs"
    by (simp add: rhy rsem)
  show ?thesis
    apply (intro conjI impI)
    subgoal by (rule kw)
    subgoal by (rule hy)
    subgoal by (simp add: hy em)
    subgoal by (simp add: hy hy_thrown)
    subgoal by (elim conjE) (simp add: hy hy_list)
    subgoal by (rule thrown)
    subgoal by (rule sem)
    subgoal by (rule semanticSearch_empty_iff)
    subgoal by (rule rkw)
    subgoal by (rule rhy)
    subgoal by (simp add: rhy rthrown)
    subgoal by (rule rhy_list)
    subgoal by (rule rthrown)
    subgoal by (rule rsem)
    subgoal by (rule retrieverSemanticSearch_empty_iff)
    done
qed

text \<open>
  The theorem at fresh engines: one of each kind whose vector store holds two chunks, and
  one whose vector store always throws. The semantic and the hybrid searches return the
  two chunks in the order of the store.
\<close>

theorem unindexed_searches_witness:
  "\<not> isIndexed (newEngine twoChunkStore) \<and> \<not> isIndexed (newEngine failingStore)
   \<and> \<not> retrieverIsIndexed (newRetrieverEngine twoChunkStore failingRetriever)
   \<and> keywordSearch asciiLibrary (newEngine twoChunkStore) (Str (str ''apples'')) 10 = Inr []
   \<and> semanticSearch (newEngine twoChunkStore) (Str (str ''apples'')) 10
       = [\<lparr>content = Str (str ''apples are red''), pageContent = Undefined,
           metadata = Some \<lparr>source = Some (str ''docA''), chunkIndex = Some 0,
                            fileType = None, processedAt = None\<rparr>,
           score = 9/10, searchType = Some Semantic\<rparr>,
          \<lparr>content = Str (str ''bananas are yellow''), pageContent = Undefined,
           metadata = Some \<lparr>source = Some (str ''docB''), chunkIndex = Some 0,
                            fileType = None, processedAt = None\<rparr>,
           score = 1/2, searchType = Some Semantic\<rparr>]
   \<and> hybridSearch asciiLibrary (newEngine twoChunkStore) (Str (str ''apples'')) defaultOptions
       = Inr [\<lparr>content = Str (str ''apples are red''), pageContent = Undefined,
               metadata = Some \<lparr>source = Some (str ''docA''), chunkIndex = Some 0,
                                fileType = None, processedAt = None\<rparr>,
               score = 7/610, searchType = Some Hybrid,
               keywordRank = None, keywordScore = None,
               semanticRank = Some 1, semanticScore = Some (9/10)\<rparr>,
              \<lparr>content = Str (str ''bananas are yellow''), pageContent = Undefined,
               metadata = Some \<lparr>source = Some (str ''docB''), chunkIndex = Some 0,
                                fileType = None, processedAt = None\<rparr>,
               score = 7/620, searchType = Some Hybrid,
               keywordRank = None, keywordScore = None,
               semanticRank = Some 2, semanticScore = Some (1/2)\<rparr>]
   \<and> semanticSearch (newEngine failingStore) (Str (str ''apples'')) 10 = []
   \<and> hybridSearch asciiLibrary (newEngine failingStore) (Str (str ''apples'')) defaultOptions = Inr []
   \<and> fst (retrieverKeywordSearch asciiLibrary (newRetrieverEngine twoChunkStore failingRetriever)
            (Str (str ''apples'')) 10) = []
   \<and> retrieverSemanticSearch (newRetrieverEngine twoChunkStore failingRetriever)
         (Str (str ''apples'')) 10
       = [\<lparr>content = Str (str ''apples are red''), pageContent = Undefined,
           metadata = Some \<lparr>source = Some (str ''docA''), chunkIndex = Some 0,
                            fileType = None, processedAt = None\<rparr>,
           score = 9/10, searchType = Some Semantic\<rparr>,
          \<lparr>content = Str (str ''bananas are yellow''), pageContent = Undefined,
           metadata = Some \<lparr>source = Some (str ''docB''), chunkIndex = Some 0,
                            fileType = None, processedAt = None\<rparr>,
           score = 1/2, searchType = Some Semantic\<rparr>]
   \<and> fst (retrieverHybridSearch asciiLibrary (newRetrieverEngine twoChunkStore failingRetriever)
            (Str (str ''apples'')) defaultOptions)
       = [\<lparr>content = Str (str ''apples are red''), pageContent = Undefined,
           metadata = Some \<lparr>source = Some (str ''docA''), chunkIndex = Some 0,
                            fileType = None, processedAt = None\<rparr>,
           score = 9/10, searchType = Some Hybrid\<rparr>,
          \<lparr>content = Str (str ''bananas are yellow''), pageContent = Undefined,
           metadata = Some \<lparr>source = Some (str ''docB''), chunkIndex = Some 0,
                            fileType = None, processedAt = None\<rparr>,
           score = 1/2, searchType = Some Hybrid\<rparr>]"
proof -
  let ?e = "newEngine twoChunkStore"
  let ?f = "newEngine failingStore"
  let ?r = "newRetrieverEngine twoChunkStore failingRetriever"
  let ?q = "Str (str ''apples'')"
  let ?rs = "[\<lparr>content = Str (str ''apples are red''), pageContent = Undefined,
             metadata = Some \<lparr>source = Some (str ''docA''), chunkIndex = Some 0,
                              fileType = None, processedAt = None\<rparr>,
             score = 9/10, searchType = None\<rparr>,
            \<lparr>content = Str (str ''bananas are yellow''), pageContent = Undefined,
             metadata = Some \<lparr>source = Some (str ''docB''), chunkIndex = Some 0,
                              fileType = None, processedAt = None\<rparr>,
             score = 1/2, searchType = None\<rparr>]"
  have un: "\<not> isIndexed ?e" "\<not> isIndexed ?f" "\<not> retrieverIsIndexed ?r"
    by (simp_all add: newEngine_def newRetrieverEngine_def)
  have store: "\<And>k. vectorStore ?e ?q k = Inr ?rs" "\<And>k. similaritySearch ?r ?q k = Inr ?rs"
    by (simp_all add: newEngine_def newRetrieverEngine_def twoChunkStore_def)
  have failing: "\<And>k. vectorStore ?f ?q k = Inl Thrown"
    by (simp add: newEngine_def failingStore_def)
  have d: "distinct (map getDocumentId ?rs)"
    by (simp add: getDocumentId_def str_def decimal.simps)
  have w: "0 \<le> semanticWeight defaultOptions"
    by (simp add: defaultOptions_def)
  note two = unindexed_searches [where this = ?e and lib = asciiLibrary and query = ?q
      and k = 10 and options = defaultOptions and e = Thrown and rs = ?rs and that = ?r]
  note none = unindexed_searches [where this = ?f and lib = asciiLibrary and query = ?q
      and k = 10 and options = defaultOptions and e = Thrown and rs = ?rs and that = ?r]
  from two un have a: "keywordSearch asciiLibrary ?e ?q 10 = Inr []"
    by blast
  from two store have "semanticSearch ?e ?q 10
          = map (\<lambda>r. \<lparr>content = content r, pageContent = pageContent r,
                          metadata = metadata r, score = score r,
                          searchType = Some Semantic\<rparr>) ?rs"
    by blast
  then have b: "semanticSearch ?e ?q 10
       = [\<lparr>content = Str (str ''apples are red''), pageContent = Undefined,
           metadata = Some \<lparr>source = Some (str ''docA''), chunkIndex = Some 0,
                            fileType = None, processedAt = None\<rparr>,
           score = 9/10, searchType = Some Semantic\<rparr>,
          \<lparr>content = Str (str ''bananas are yellow''), pageContent = Undefined,
           metadata = Some \<lparr>source = Some (str ''docB''), chunkIndex = Some 0,
                            fileType = None, processedAt = None\<rparr>,
           score = 1/2, searchType = Some Semantic\<rparr>]"
    by simp
  from two un(1) store(1) [of "semanticResults defaultOptions"] d w
  have "hybridSearch asciiLibrary ?e ?q defaultOptions
             = Inr (slice0 (maxResults defaultOptions)
                      (map (\<lambda>p. \<lparr>content = content (snd p), pageContent = Undefined,
                                   metadata = metadata (snd p),
                                   score = semanticWeight defaultOptions / (60 + real (fst p) + 1),
                                   searchType = Some Hybrid,
                                   keywordRank = None, keywordScore = None,
                                   semanticRank = Some (fst p + 1),
                                   semanticScore = Some (score (snd p))\<rparr>)
                         (enumerate 0 ?rs)))"
    by blast
  then have c: "hybridSearch asciiLibrary ?e ?q defaultOptions
       = Inr [\<lparr>content = Str (str ''apples are red''), pageContent = Undefined,
               metadata = Some \<lparr>source = Some (str ''docA''), chunkIndex = Some 0,
                                fileType = None, processedAt = None\<rparr>,
               score = 7/610, searchType = Some Hybrid,
               keywordRank = None, keywordScore = None,
               semanticRank = Some 1, semanticScore = Some (9/10)\<rparr>,
              \<lparr>content = Str (str ''bananas are yellow''), pageContent = Undefined,
               metadata = Some \<lparr>source = Some (str ''docB''), chunkIndex = Some 0,
                                fileType = None, processedAt = None\<rparr>,
               score = 7/620, searchType = Some Hybrid,
               keywordRank = None, keywordScore = None,
               semanticRank = Some 2, semanticScore = Some (1/2)\<rparr>]"
    by (simp add: defaultOptions_def slice0_def)
  from none failing have f1: "semanticSearch ?f ?q 10 = []"
    by blast
  from none un(2) failing [of "semanticResults defaultOptions"]
  have f2: "hybridSearch asciiLibrary ?f ?q defaultOptions = Inr []"
    by blast
  from two un(3) have "retrieverKeywordSearch asciiLibrary ?r ?q 10 = ([], ?r)"
    by blast
  then have g: "fst (retrieverKeywordSearch asciiLibrary ?r ?q 10) = []"
    by simp
  from two store(2) have "retrieverSemanticSearch ?r ?q 10
          = map (\<lambda>r. \<lparr>content = (if truthy (pageContent r) then pageContent r else content r),
                          pageContent = Undefined, metadata = metadata r, score = score r,
                          searchType = Some Semantic\<rparr>) ?rs"
    by blast
  then have h: "retrieverSemanticSearch ?r ?q 10
       = [\<lparr>content = Str (str ''apples are red''), pageContent = Undefined,
           metadata = Some \<lparr>source = Some (str ''docA''), chunkIndex = Some 0,
                            fileType = None, processedAt = None\<rparr>,
           score = 9/10, searchType = Some Semantic\<rparr>,
          \<lparr>content = Str (str ''bananas are yellow''), pageContent = Undefined,
           metadata = Some \<lparr>source = Some (str ''docB''), chunkIndex = Some 0,
                            fileType = None, processedAt = None\<rparr>,
           score = 1/2, searchType = Some Semantic\<rparr>]"
    by simp
  from two un(3) store(2) [of "maxResults defaultOptions"]
  have "fst (retrieverHybridSearch asciiLibrary ?r ?q defaultOptions)
             = map (\<lambda>r. \<lparr>content = (if truthy (pageContent r) then pageContent r else content r),
                          pageContent = Undefined, metadata = metadata r, score = score r,
                          searchType = Some Hybrid\<rparr>) ?rs"
    by blast
  then have i: "fst (retrieverHybridSearch asciiLibrary ?r ?q defaultOptions)
       = [\<lparr>content = Str (str ''apples are red''), pageContent = Undefined,
           metadata = Some \<lparr>source = Some (str ''docA''), chunkIndex = Some 0,
                            fileType = None, processedAt = None\<rparr>,
           score = 9/10, searchType = Some Hybrid\<rparr>,
          \<lparr>content = Str (str ''bananas are yellow''), pageContent = Undefined,
           metadata = Some \<lparr>source = Some (str ''docB''), chunkIndex = Some 0,
                            fileType = None, processedAt = None\<rparr>,
           score = 1/2, searchType = Some Hybrid\<rparr>]"
    by simp
  from un a b c f1 f2 g h i show ?thesis
    by (intro conjI)
qed

text \<open>
  A fresh engine whose vector store holds one chunk is not indexed, and its semantic and
  hybrid searches return that chunk; so do those of the engine built on retrievers.
\<close>

theorem unindexed_semantic_not_empty:
  "\<not> isIndexed (newEngine oneChunkStore)
   \<and> map getDocumentId (semanticSearch (newEngine oneChunkStore) (Str (str ''apples'')) 10)
       = [str ''docA_0'']
   \<and> map_sum id (map getDocumentId)
         (hybridSearch asciiLibrary (newEngine oneChunkStore) (Str (str ''apples'')) defaultOptions)
       = Inr [str ''docA_0'']
   \<and> map getDocumentId
         (fst (retrieverHybridSearch asciiLibrary (newRetrieverEngine oneChunkStore (\<lambda>q. Inl Thrown))
            (Str (str ''apples'')) defaultOptions))
       = [str ''docA_0'']"
  by (simp add: hybrid_eval keywordSearch_def slice0_def fusion_eval
        retrieverHybridSearch_def semanticFallback_def retrieverSemanticSearch_def
        newRetrieverEngine_def)

text \<open>
  Claim C4, as the code has it. When the call of the vector store throws, \<^verbatim>\<open>semanticSearch\<close>
  returns the empty list, in both engines. The \<^verbatim>\<open>hybridSearch\<close> of the engine built on
  \<^verbatim>\<open>TfIdf\<close> then returns the first \<^verbatim>\<open>maxResults\<close> of the fusion of the keyword results with
  the empty list: every result has the identity of a keyword result and no semantic rank;
  when the keyword search matched and \<^verbatim>\<open>maxResults\<close> is 1 or more, the result is not
  empty; and when the keyword results are of distinct chunks and the keyword weight is not
  negative, the result at position \<open>i\<close> has the content and the metadata of the \<open>i\<close>-th
  keyword result, the score \<open>keywordWeight / (60 + i + 1)\<close> and the keyword rank \<open>i + 1\<close>.
  The \<^verbatim>\<open>hybridSearch\<close> of the engine built on retrievers does not throw either, but when
  the retriever of the vector store throws it returns the results of
  \<^verbatim>\<open>semanticSearch(query, maxResults)\<close> with the tag \<^verbatim>\<open>hybrid\<close>, whatever the keyword
  retrieval found: the empty list when the search of the vector store throws too.
\<close>

theorem semantic_failure_searches:
  "(vectorStore this query k = Inl e \<longrightarrow> semanticSearch this query k = [])
   \<and> (vectorStore this query (semanticResults options) = Inl e \<longrightarrow>
        (\<exists>kw res. keywordSearch lib this query (keywordResults options) = Inr kw
           \<and> hybridSearch lib this query options = Inr res
           \<and> res = slice0 (maxResults options)
                   (fuseResults kw [] (keywordWeight options) (semanticWeight options))
           \<and> (\<forall>r \<in> set res. getDocumentId r \<in> getDocumentId ` set kw \<and> semanticRank r = None)
           \<and> (kw \<noteq> [] \<and> 1 \<le> maxResults options \<longrightarrow> res \<noteq> [])
           \<and> (distinct (map getDocumentId kw) \<and> 0 \<le> keywordWeight options \<longrightarrow>
                res = slice0 (maxResults options)
                        (map (\<lambda>p. \<lparr>content = content (snd p), pageContent = Undefined,
                                   metadata = metadata (snd p),
                                   score = keywordWeight options / (60 + real (fst p) + 1),
                                   searchType = Some Hybrid,
                                   keywordRank = Some (fst p + 1),
                                   keywordScore = Some (score (snd p)),
                                   semanticRank = None, semanticScore = None\<rparr>)
                           (enumerate 0 kw)))))
   \<and> (similaritySearch that query k = Inl e \<longrightarrow> retrieverSemanticSearch that query k = [])
   \<and> (vectorRetriever that query = Inl e \<longrightarrow>
        fst (retrieverHybridSearch lib that query options)
          = map (\<lambda>r. r\<lparr>searchType := Some Hybrid\<rparr>)
              (retrieverSemanticSearch that query (maxResults options)))
   \<and> (similaritySearch that query (maxResults options) = Inl e
        \<and> vectorRetriever that query = Inl e \<longrightarrow>
        fst (retrieverHybridSearch lib that query options) = [])"
proof (intro conjI impI)
  assume "vectorStore this query k = Inl e"
  then show "semanticSearch this query k = []"
    by (simp add: semanticSearch_def)
next
  assume thrown: "vectorStore this query (semanticResults options) = Inl e"
  from keywordSearch_total obtain kw
    where kw: "keywordSearch lib this query (keywordResults options) = Inr kw"
    by blast
  let ?fused = "fuseResults kw [] (keywordWeight options) (semanticWeight options)"
  let ?res = "slice0 (maxResults options) ?fused"
  let ?list = "slice0 (maxResults options)
                        (map (\<lambda>p. \<lparr>content = content (snd p), pageContent = Undefined,
                                   metadata = metadata (snd p),
                                   score = keywordWeight options / (60 + real (fst p) + 1),
                                   searchType = Some Hybrid,
                                   keywordRank = Some (fst p + 1),
                                   keywordScore = Some (score (snd p)),
                                   semanticRank = None, semanticScore = None\<rparr>)
                           (enumerate 0 kw))"
  have res: "hybridSearch lib this query options = Inr ?res"
    using thrown by (simp add: hybridSearch_def kw semanticSearch_def)
  have from_kw: "\<forall>r \<in> set ?res. getDocumentId r \<in> getDocumentId ` set kw \<and> semanticRank r = None"
  proof
    fix r assume "r \<in> set ?res"
    then have r: "r \<in> set ?fused"
      by (rule subsetD [OF set_slice0])
    then have "getDocumentId r \<in> getDocumentId ` set ?fused"
      by (rule imageI)
    then have "getDocumentId r \<in> getDocumentId ` set kw"
      by (simp only: fuseResults_ids) simp
    moreover from r have "semanticRank r = None"
      by (rule fuseResults_keyword_only)
    ultimately show "getDocumentId r \<in> getDocumentId ` set kw \<and> semanticRank r = None"
      by (rule conjI)
  qed
  have ne: "kw \<noteq> [] \<and> 1 \<le> maxResults options \<longrightarrow> ?res \<noteq> []"
    by (simp add: slice0_empty_iff fuseResults_empty_iff)
  have list: "distinct (map getDocumentId kw) \<and> 0 \<le> keywordWeight options \<longrightarrow> ?res = ?list"
  proof
    assume "distinct (map getDocumentId kw) \<and> 0 \<le> keywordWeight options"
    then have d: "distinct (map getDocumentId kw)" and w: "0 \<le> keywordWeight options"
      by blast+
    show "?res = ?list"
      by (simp only: fuseResults_keyword_list [OF d w])
  qed
  show "\<exists>kw res. keywordSearch lib this query (keywordResults options) = Inr kw
           \<and> hybridSearch lib this query options = Inr res
           \<and> res = slice0 (maxResults options)
                   (fuseResults kw [] (keywordWeight options) (semanticWeight options))
           \<and> (\<forall>r \<in> set res. getDocumentId r \<in> getDocumentId ` set kw \<and> semanticRank r = None)
           \<and> (kw \<noteq> [] \<and> 1 \<le> maxResults options \<longrightarrow> res \<noteq> [])
           \<and> (distinct (map getDocumentId kw) \<and> 0 \<le> keywordWeight options \<longrightarrow>
                res = slice0 (maxResults options)
                        (map (\<lambda>p. \<lparr>content = content (snd p), pageContent = Undefined,
                                   metadata = metadata (snd p),
                                   score = keywordWeight options / (60 + real (fst p) + 1),
                                   searchType = Some Hybrid,
                                   keywordRank = Some (fst p + 1),
                                   keywordScore = Some (score (snd p)),
                                   semanticRank = None, semanticScore = None\<rparr>)
                           (enumerate 0 kw)))"
    apply (rule exI [of _ kw])
    apply (rule exI [of _ ?res])
    apply (intro conjI)
         apply (rule kw)
        apply (rule res)
       apply (rule refl)
      apply (rule from_kw)
     apply (rule ne)
    apply (rule list)
    done
next
  assume "similaritySearch that query k = Inl e"
  then show "retrieverSemanticSearch that query k = []"
    by (simp add: retrieverSemanticSearch_def)
next
  assume "vectorRetriever that query = Inl e"
  then show "fst (retrieverHybridSearch lib that query options)
          = map (\<lambda>r. r\<lparr>searchType := Some Hybrid\<rparr>)
              (retrieverSemanticSearch that query (maxResults options))"
    by (rule retrieverHybridSearch_fallback)
next
  assume "similaritySearch that query (maxResults options) = Inl e
        \<and> vectorRetriever that query = Inl e"
  then have s: "similaritySearch that query (maxResults options) = Inl e"
    and v: "vectorRetriever that query = Inl e"
    by blast+
  from s have "retrieverSemanticSearch that query (maxResults options) = []"
    by (simp add: retrieverSemanticSearch_def)
  then show "fst (retrieverHybridSearch lib that query options) = []"
    by (simp add: retrieverHybridSearch_fallback [OF v])
qed

text \<open>
  The theorem at the two scenario engines, whose vector store always throws, with the
  query \<^verbatim>\<open>apples\<close> and the default options: the semantic search is empty in both; the
  hybrid search of the engine built on \<^verbatim>\<open>TfIdf\<close> returns the two keyword hits, and that of
  the engine built on retrievers returns nothing.
\<close>

theorem semantic_failure_searches_witness:
  "vectorStore scenarioEngine (Str (str ''apples'')) 10 = Inl Thrown
   \<and> similaritySearch scenarioRetrieverEngine (Str (str ''apples'')) 4 = Inl Thrown
   \<and> vectorRetriever scenarioRetrieverEngine (Str (str ''apples'')) = Inl Thrown
   \<and> semanticSearch scenarioEngine (Str (str ''apples'')) 10 = []
   \<and> hybridSearch asciiLibrary scenarioEngine (Str (str ''apples'')) defaultOptions
       = Inr [\<lparr>content = Str (str ''apples are red''), pageContent = Undefined,
               metadata = Some \<lparr>source = Some (str ''docA''), chunkIndex = Some 0,
                                fileType = None, processedAt = None\<rparr>,
               score = 3/610, searchType = Some Hybrid,
               keywordRank = Some 1, keywordScore = Some 1,
               semanticRank = None, semanticScore = None\<rparr>,
              \<lparr>content = Str (str ''Green Apples!''), pageContent = Undefined,
               metadata = Some \<lparr>source = Some (str ''docA''), chunkIndex = Some 2,
                                fileType = None, processedAt = None\<rparr>,
               score = 3/620, searchType = Some Hybrid,
               keywordRank = Some 2, keywordScore = Some 1,
               semanticRank = None, semanticScore = None\<rparr>]
   \<and> retrieverSemanticSearch scenarioRetrieverEngine (Str (str ''apples'')) 4 = []
   \<and> fst (retrieverHybridSearch asciiLibrary scenarioRetrieverEngine (Str (str ''apples''))
            defaultOptions) = []"
proof -
  let ?q = "Str (str ''apples'')"
  let ?kw = "[\<lparr>content = Str (str ''apples are red''), pageContent = Undefined,
             metadata = Some \<lparr>source = Some (str ''docA''), chunkIndex = Some 0,
                              fileType = None, processedAt = None\<rparr>,
             score = 1, searchType = Some Keyword\<rparr>,
            \<lparr>content = Str (str ''Green Apples!''), pageContent = Undefined,
             metadata = Some \<lparr>source = Some (str ''docA''), chunkIndex = Some 2,
                              fileType = None, processedAt = None\<rparr>,
             score = 1, searchType = Some Keyword\<rparr>]"
  have thrown: "vectorStore scenarioEngine ?q 10 = Inl Thrown"
    by (simp add: scenarioEngine_def failingStore_def)
  have thrown': "similaritySearch scenarioRetrieverEngine ?q 4 = Inl Thrown"
    "vectorRetriever scenarioRetrieverEngine ?q = Inl Thrown"
    by (simp_all add: scenarioRetrieverEngine_def failingStore_def failingRetriever_def)
  have opts: "semanticResults defaultOptions = 10" "keywordResults defaultOptions = 10"
    "maxResults defaultOptions = 4" "keywordWeight defaultOptions = 3/10"
    by (simp_all add: defaultOptions_def)
  have ev: "keywordSearch asciiLibrary scenarioEngine ?q 10 = Inr ?kw"
    by (simp add: keyword_eval)
  have d: "distinct (map getDocumentId ?kw)"
    by (simp add: getDocumentId_def str_def decimal.simps)
  note inst = semantic_failure_searches [where this = scenarioEngine and query = ?q and k = 10
      and e = Thrown and options = defaultOptions and lib = asciiLibrary
      and that = scenarioRetrieverEngine]
  note inst' = semantic_failure_searches [where this = scenarioEngine and query = ?q and k = 4
      and e = Thrown and options = defaultOptions and lib = asciiLibrary
      and that = scenarioRetrieverEngine]
  from inst thrown have sem: "semanticSearch scenarioEngine ?q 10 = []"
    by blast
  from inst thrown have "\<exists>kw res. keywordSearch asciiLibrary scenarioEngine ?q 10 = Inr kw
           \<and> hybridSearch asciiLibrary scenarioEngine ?q defaultOptions = Inr res
           \<and> (distinct (map getDocumentId kw) \<and> 0 \<le> (3/10 :: real) \<longrightarrow>
                res = slice0 4
                        (map (\<lambda>p. \<lparr>content = content (snd p), pageContent = Undefined,
                                   metadata = metadata (snd p),
                                   score = 3/10 / (60 + real (fst p) + 1),
                                   searchType = Some Hybrid,
                                   keywordRank = Some (fst p + 1),
                                   keywordScore = Some (score (snd p)),
                                   semanticRank = None, semanticScore = None\<rparr>)
                           (enumerate 0 kw)))"
    unfolding opts by blast
  then obtain res
    where res: "hybridSearch asciiLibrary scenarioEngine ?q defaultOptions = Inr res"
      and list: "res = slice0 4
                        (map (\<lambda>p. \<lparr>content = content (snd p), pageContent = Undefined,
                                   metadata = metadata (snd p),
                                   score = 3/10 / (60 + real (fst p) + 1),
                                   searchType = Some Hybrid,
                                   keywordRank = Some (fst p + 1),
                                   keywordScore = Some (score (snd p)),
                                   semanticRank = None, semanticScore = None\<rparr>)
                           (enumerate 0 ?kw))"
    using ev d by auto
  have hy: "hybridSearch asciiLibrary scenarioEngine ?q defaultOptions
       = Inr [\<lparr>content = Str (str ''apples are red''), pageContent = Undefined,
               metadata = Some \<lparr>source = Some (str ''docA''), chunkIndex = Some 0,
                                fileType = None, processedAt = None\<rparr>,
               score = 3/610, searchType = Some Hybrid,
               keywordRank = Some 1, keywordScore = Some 1,
               semanticRank = None, semanticScore = None\<rparr>,
              \<lparr>content = Str (str ''Green Apples!''), pageContent = Undefined,
               metadata = Some \<lparr>source = Some (str ''docA''), chunkIndex = Some 2,
                                fileType = None, processedAt = None\<rparr>,
               score = 3/620, searchType = Some Hybrid,
               keywordRank = Some 2, keywordScore = Some 1,
               semanticRank = None, semanticScore = None\<rparr>]"
    unfolding res list by (simp add: slice0_def)
  from inst' thrown'(1) have rsem: "retrieverSemanticSearch scenarioRetrieverEngine ?q 4 = []"
    by blast
  from inst' thrown' have rhy:
    "fst (retrieverHybridSearch asciiLibrary scenarioRetrieverEngine ?q defaultOptions) = []"
    unfolding opts by blast
  from thrown thrown' sem hy rsem rhy show ?thesis
    by (intro conjI)
qed

text \<open>
  The engine built on retrievers, indexed with the scenario corpus by \<^verbatim>\<open>buildIndex\<close>, with a
  vector store that always throws: the keyword search for \<^verbatim>\<open>apples\<close> matches two chunks,
  and the hybrid search returns nothing.
\<close>

theorem retriever_hybridSearch_drops_keyword_hits:
  "retrieverBuildIndex asciiLibrary (newRetrieverEngine failingStore failingRetriever)
     scenarioCorpus failingStore failingRetriever = Inr scenarioRetrieverEngine
   \<and> fst (retrieverKeywordSearch asciiLibrary scenarioRetrieverEngine (Str (str ''apples'')) 10)
       = [\<lparr>content = Str (str ''apples are red''), pageContent = Undefined,
           metadata = Some \<lparr>source = Some (str ''docA''), chunkIndex = Some 0,
                            fileType = None, processedAt = None\<rparr>,
           score = 1, searchType = Some Keyword\<rparr>,
          \<lparr>content = Str (str ''Green Apples!''), pageContent = Undefined,
           metadata = Some \<lparr>source = Some (str ''docA''), chunkIndex = Some 2,
                            fileType = None, processedAt = None\<rparr>,
           score = 1/2, searchType = Some Keyword\<rparr>]
   \<and> fst (retrieverHybridSearch asciiLibrary scenarioRetrieverEngine (Str (str ''apples''))
            defaultOptions) = []"
proof -
  have "fst (retrieverKeywordSearch asciiLibrary scenarioRetrieverEngine (Str (str ''apples'')) 10)
       = [\<lparr>content = Str (str ''apples are red''), pageContent = Undefined,
           metadata = Some \<lparr>source = Some (str ''docA''), chunkIndex = Some 0,
                            fileType = None, processedAt = None\<rparr>,
           score = 1, searchType = Some Keyword\<rparr>,
          \<lparr>content = Str (str ''Green Apples!''), pageContent = Undefined,
           metadata = Some \<lparr>source = Some (str ''docA''), chunkIndex = Some 2,
                            fileType = None, processedAt = None\<rparr>,
           score = 1/2, searchType = Some Keyword\<rparr>]"
    by (simp add: retrieverKeywordSearch_def bm25GetRelevantDocuments_def rankedResult_def
          scenarioRetrieverEngine_def langchainDocument_def keyword_eval)
  moreover have "fst (retrieverHybridSearch asciiLibrary scenarioRetrieverEngine (Str (str ''apples''))
            defaultOptions) = []"
    by (simp add: retrieverHybridSearch_def semanticFallback_def retrieverSemanticSearch_def
          bm25GetRelevantDocuments_def scenarioRetrieverEngine_def langchainDocument_def
          failingStore_def failingRetriever_def defaultOptions_def keyword_eval)
  ultimately show ?thesis
    using scenarioRetrieverEngine_built by (intro conjI)
qed

section \<open>Claim about the classifier\<close>

text \<open>
  Claim C5. For a question that matches neither the greeting patterns nor the patterns of
  a personal question, \<^verbatim>\<open>classifyQuestion\<close> returns \<^verbatim>\<open>SEARCH\<close> when the call of the
  classification model throws, and when the response of the model, trimmed and in upper
  case, contains neither \<^verbatim>\<open>DIRECT\<close> nor \<^verbatim>\<open>SEARCH\<close>.
\<close>

theorem classifyQuestion_defaults_to_search:
  assumes "\<not> isLikelyGreeting question" and "\<not> isPersonalQuestion question"
  shows "(classificationChain (trim question) = Inl e \<longrightarrow>
            classifyQuestion lib classificationChain question = SEARCH)
       \<and> (classificationChain (trim question) = Inr response
            \<and> \<not> stringIncludes (toUpperCase lib (trim response)) (str ''DIRECT'')
            \<and> \<not> stringIncludes (toUpperCase lib (trim response)) (str ''SEARCH'') \<longrightarrow>
            classifyQuestion lib classificationChain question = SEARCH)"
  using assms by (simp add: classifyQuestion_def Let_def)

text \<open>
  The theorem at the question \<^verbatim>\<open>Is revenue up?\<close>, with a model that throws and with a
  model that answers \<^verbatim>\<open>maybe\<close>.
\<close>

theorem classifyQuestion_defaults_to_search_witness:
  "\<not> isLikelyGreeting (str ''Is revenue up?'') \<and> \<not> isPersonalQuestion (str ''Is revenue up?'')
   \<and> classifyQuestion asciiLibrary (\<lambda>q. Inl Thrown) (str ''Is revenue up?'') = SEARCH
   \<and> classifyQuestion asciiLibrary (\<lambda>q. Inr (str '' maybe '')) (str ''Is revenue up?'') = SEARCH"
proof -
  let ?q = "str ''Is revenue up?''"
  note inst = classifyQuestion_defaults_to_search [OF no_greeting no_personal_question]
  from inst [where classificationChain = "\<lambda>q. Inl Thrown" and e = Thrown and lib = asciiLibrary]
  have a: "classifyQuestion asciiLibrary (\<lambda>q. Inl Thrown) ?q = SEARCH"
    by simp
  from inst [where classificationChain = "\<lambda>q. Inr (str '' maybe '')"
      and response = "str '' maybe ''" and lib = asciiLibrary] maybe_unrecognised
  have b: "classifyQuestion asciiLibrary (\<lambda>q. Inr (str '' maybe '')) ?q = SEARCH"
    by simp
  from no_greeting no_personal_question a b show ?thesis
    by blast
qed

end
